theory Spec2Isabelle
  imports Main "HOL-Library.Word" "HOL-Library.Sublist"
begin

section \<open>pkg/baby/state.go: the state record and its merge\<close>

text \<open>
  Every field of the Go structs \<open>State\<close> and \<open>DeviceInfo\<close> is a pointer, and
  \<open>Merge\<close> compares and copies pointers as well as the values behind them. The
  model therefore keeps an explicit store: scalar cells, \<open>DeviceInfo\<close> objects and
  \<open>State\<close> objects live at addresses, a pointer is an \<open>addr option\<close> (\<open>None\<close> is
  \<open>nil\<close>), and an allocation takes the next free address \<open>nxt\<close>.
\<close>

type_synonym addr = nat

datatype StreamRequestState =
  StreamRequestState_NotRequested | StreamRequestState_Requested | StreamRequestState_RequestFailed

datatype StreamState =
  StreamState_Unknown | StreamState_Unhealthy | StreamState_Alive

datatype val =
  VStreamState StreamState
  | VStreamRequestState StreamRequestState
  | VBool bool
  | VInt32 "32 word"
  | VInt64 "64 word"
  | VString string

record DeviceInfo =
  FirmwareVersion :: "addr option"
  HardwareVersion :: "addr option"
  DeviceMode :: "addr option"
  MountingMode :: "addr option"
  WiFiNetwork :: "addr option"
  WiFiBand :: "addr option"
  NightVision :: "addr option"
  Volume :: "addr option"
  SleepMode :: "addr option"
  StatusLight :: "addr option"
  MicMute :: "addr option"
  AntiFlicker :: "addr option"
  StreamingError :: "addr option"
  UpgradeDownloaded :: "addr option"
  AvailableSoundtracks :: "string list option"
  TempLowThreshold :: "addr option"
  TempHighThreshold :: "addr option"
  HumidityLowThreshold :: "addr option"
  HumidityHighThreshold :: "addr option"
  MobileBitrate :: "addr option"
  MobileFPS :: "addr option"
  DVRBitrate :: "addr option"
  DVRFPS :: "addr option"
  AnalyticsBitrate :: "addr option"
  AnalyticsFPS :: "addr option"
  LastUpdated :: "addr option"

record State =
  StreamState :: "addr option"
  StreamRequestState :: "addr option"
  IsWebsocketAlive :: "addr option"
  LastVideoPacketTime :: "addr option"
  MotionTimestamp :: "addr option"
  SoundTimestamp :: "addr option"
  Temperature :: "addr option"
  IsNight :: "addr option"
  TemperatureMilli :: "addr option"
  HumidityMilli :: "addr option"
  NightLight :: "addr option"
  Standby :: "addr option"
  DeviceInfo :: "addr option"

text \<open>The zero values \<open>DeviceInfo{}\<close> and \<open>State{}\<close>: every field \<open>nil\<close>.\<close>

definition emptyDeviceInfo :: DeviceInfo where
  "emptyDeviceInfo = \<lparr>FirmwareVersion = None, HardwareVersion = None, DeviceMode = None,
     MountingMode = None, WiFiNetwork = None, WiFiBand = None, NightVision = None,
     Volume = None, SleepMode = None, StatusLight = None, MicMute = None, AntiFlicker = None,
     StreamingError = None, UpgradeDownloaded = None, AvailableSoundtracks = None,
     TempLowThreshold = None, TempHighThreshold = None, HumidityLowThreshold = None,
     HumidityHighThreshold = None, MobileBitrate = None, MobileFPS = None, DVRBitrate = None,
     DVRFPS = None, AnalyticsBitrate = None, AnalyticsFPS = None, LastUpdated = None\<rparr>"

definition emptyState :: State where
  "emptyState = \<lparr>StreamState = None, StreamRequestState = None, IsWebsocketAlive = None,
     LastVideoPacketTime = None, MotionTimestamp = None, SoundTimestamp = None,
     Temperature = None, IsNight = None, TemperatureMilli = None, HumidityMilli = None,
     NightLight = None, Standby = None, DeviceInfo = None\<rparr>"

subsection \<open>The store\<close>

record heap =
  cells :: "addr \<Rightarrow> val"
  dinfos :: "addr \<Rightarrow> DeviceInfo"
  states :: "addr \<Rightarrow> State"
  nxt :: addr

definition new_cell :: "heap \<Rightarrow> val \<Rightarrow> heap \<times> addr" where
  "new_cell h v = (h\<lparr>cells := (cells h)(nxt h := v), nxt := Suc (nxt h)\<rparr>, nxt h)"

definition new_DeviceInfo :: "heap \<Rightarrow> DeviceInfo \<Rightarrow> heap \<times> addr" where
  "new_DeviceInfo h d = (h\<lparr>dinfos := (dinfos h)(nxt h := d), nxt := Suc (nxt h)\<rparr>, nxt h)"

definition new_State :: "heap \<Rightarrow> State \<Rightarrow> heap \<times> addr" where
  "new_State h s = (h\<lparr>states := (states h)(nxt h := s), nxt := Suc (nxt h)\<rparr>, nxt h)"

subsection \<open>Reflection over the fields of \<open>State\<close>\<close>

text \<open>
  \<open>Merge\<close> walks the fields of \<open>State\<close> by index through the \<open>reflect\<close> package.
  \<open>StateField\<close> names the thirteen fields, \<open>stateFields\<close> lists them in declaration
  order (the order of \<open>Field(i)\<close>), \<open>Field_of\<close> reads one and \<open>SetField\<close> writes one.
\<close>

datatype StateField =
  F_StreamState | F_StreamRequestState | F_IsWebsocketAlive | F_LastVideoPacketTime
  | F_MotionTimestamp | F_SoundTimestamp | F_Temperature | F_IsNight | F_TemperatureMilli
  | F_HumidityMilli | F_NightLight | F_Standby | F_DeviceInfo

definition stateFields :: "StateField list" where
  "stateFields = [F_StreamState, F_StreamRequestState, F_IsWebsocketAlive,
     F_LastVideoPacketTime, F_MotionTimestamp, F_SoundTimestamp, F_Temperature, F_IsNight,
     F_TemperatureMilli, F_HumidityMilli, F_NightLight, F_Standby, F_DeviceInfo]"

fun Field_of :: "State \<Rightarrow> StateField \<Rightarrow> addr option" where
  "Field_of s F_StreamState = StreamState s"
| "Field_of s F_StreamRequestState = StreamRequestState s"
| "Field_of s F_IsWebsocketAlive = IsWebsocketAlive s"
| "Field_of s F_LastVideoPacketTime = LastVideoPacketTime s"
| "Field_of s F_MotionTimestamp = MotionTimestamp s"
| "Field_of s F_SoundTimestamp = SoundTimestamp s"
| "Field_of s F_Temperature = Temperature s"
| "Field_of s F_IsNight = IsNight s"
| "Field_of s F_TemperatureMilli = TemperatureMilli s"
| "Field_of s F_HumidityMilli = HumidityMilli s"
| "Field_of s F_NightLight = NightLight s"
| "Field_of s F_Standby = Standby s"
| "Field_of s F_DeviceInfo = DeviceInfo s"

fun SetField :: "StateField \<Rightarrow> addr option \<Rightarrow> State \<Rightarrow> State" where
  "SetField F_StreamState v s = s\<lparr>StreamState := v\<rparr>"
| "SetField F_StreamRequestState v s = s\<lparr>StreamRequestState := v\<rparr>"
| "SetField F_IsWebsocketAlive v s = s\<lparr>IsWebsocketAlive := v\<rparr>"
| "SetField F_LastVideoPacketTime v s = s\<lparr>LastVideoPacketTime := v\<rparr>"
| "SetField F_MotionTimestamp v s = s\<lparr>MotionTimestamp := v\<rparr>"
| "SetField F_SoundTimestamp v s = s\<lparr>SoundTimestamp := v\<rparr>"
| "SetField F_Temperature v s = s\<lparr>Temperature := v\<rparr>"
| "SetField F_IsNight v s = s\<lparr>IsNight := v\<rparr>"
| "SetField F_TemperatureMilli v s = s\<lparr>TemperatureMilli := v\<rparr>"
| "SetField F_HumidityMilli v s = s\<lparr>HumidityMilli := v\<rparr>"
| "SetField F_NightLight v s = s\<lparr>NightLight := v\<rparr>"
| "SetField F_Standby v s = s\<lparr>Standby := v\<rparr>"
| "SetField F_DeviceInfo v s = s\<lparr>DeviceInfo := v\<rparr>"

text \<open>\<open>newField.Set(v)\<close> on the object at address \<open>a\<close>: a write into the store.\<close>

definition storeField :: "heap \<Rightarrow> addr \<Rightarrow> StateField \<Rightarrow> addr option \<Rightarrow> heap" where
  "storeField h a f v = h\<lparr>states := (states h)(a := SetField f v (states h a))\<rparr>"

subsection \<open>\<open>mergeDeviceInfo\<close>\<close>

text \<open>
  \<open>merged := *current\<close> copies the struct and each \<open>if patch.F != nil\<close> then
  overwrites one field of the copy with the patch's pointer: \<open>merged c p\<close> is the
  value of the local variable \<open>merged\<close> at the \<open>return\<close>, for \<open>c = *current\<close> and
  \<open>p = *patch\<close>. The source has no statement for \<open>LastUpdated\<close>, so the copy keeps
  the current one. \<open>return &merged\<close> puts the copy at a new address.
\<close>

definition merged :: "DeviceInfo \<Rightarrow> DeviceInfo \<Rightarrow> DeviceInfo" where
  "merged c p = c\<lparr>
       FirmwareVersion := (if FirmwareVersion p \<noteq> None then FirmwareVersion p else FirmwareVersion c),
       HardwareVersion := (if HardwareVersion p \<noteq> None then HardwareVersion p else HardwareVersion c),
       DeviceMode := (if DeviceMode p \<noteq> None then DeviceMode p else DeviceMode c),
       MountingMode := (if MountingMode p \<noteq> None then MountingMode p else MountingMode c),
       WiFiNetwork := (if WiFiNetwork p \<noteq> None then WiFiNetwork p else WiFiNetwork c),
       WiFiBand := (if WiFiBand p \<noteq> None then WiFiBand p else WiFiBand c),
       NightVision := (if NightVision p \<noteq> None then NightVision p else NightVision c),
       Volume := (if Volume p \<noteq> None then Volume p else Volume c),
       SleepMode := (if SleepMode p \<noteq> None then SleepMode p else SleepMode c),
       StatusLight := (if StatusLight p \<noteq> None then StatusLight p else StatusLight c),
       MicMute := (if MicMute p \<noteq> None then MicMute p else MicMute c),
       AntiFlicker := (if AntiFlicker p \<noteq> None then AntiFlicker p else AntiFlicker c),
       StreamingError := (if StreamingError p \<noteq> None then StreamingError p else StreamingError c),
       UpgradeDownloaded := (if UpgradeDownloaded p \<noteq> None then UpgradeDownloaded p else UpgradeDownloaded c),
       AvailableSoundtracks := (if AvailableSoundtracks p \<noteq> None then AvailableSoundtracks p else AvailableSoundtracks c),
       TempLowThreshold := (if TempLowThreshold p \<noteq> None then TempLowThreshold p else TempLowThreshold c),
       TempHighThreshold := (if TempHighThreshold p \<noteq> None then TempHighThreshold p else TempHighThreshold c),
       HumidityLowThreshold := (if HumidityLowThreshold p \<noteq> None then HumidityLowThreshold p else HumidityLowThreshold c),
       HumidityHighThreshold := (if HumidityHighThreshold p \<noteq> None then HumidityHighThreshold p else HumidityHighThreshold c),
       MobileBitrate := (if MobileBitrate p \<noteq> None then MobileBitrate p else MobileBitrate c),
       MobileFPS := (if MobileFPS p \<noteq> None then MobileFPS p else MobileFPS c),
       DVRBitrate := (if DVRBitrate p \<noteq> None then DVRBitrate p else DVRBitrate c),
       DVRFPS := (if DVRFPS p \<noteq> None then DVRFPS p else DVRFPS c),
       AnalyticsBitrate := (if AnalyticsBitrate p \<noteq> None then AnalyticsBitrate p else AnalyticsBitrate c),
       AnalyticsFPS := (if AnalyticsFPS p \<noteq> None then AnalyticsFPS p else AnalyticsFPS c)\<rparr>"

definition mergeDeviceInfo :: "heap \<Rightarrow> addr option \<Rightarrow> addr option \<Rightarrow> heap \<times> addr option" where
  "mergeDeviceInfo h current patch =
    (case patch of
       None \<Rightarrow> (h, current)
     | Some pa \<Rightarrow>
        (case current of
           None \<Rightarrow> (h, patch)
         | Some ca \<Rightarrow>
            (let (h', ma) = new_DeviceInfo h (merged (dinfos h ca) (dinfos h pa))
             in (h', Some ma))))"

subsection \<open>\<open>Merge\<close>\<close>

text \<open>
  One pass of the loop body for field \<open>f\<close>. \<open>newState\<close>, \<open>state\<close> and
  \<open>stateUpdate\<close> are the three pointers the reflection values were made from, and
  the flag is the variable \<open>changed\<close>. The three branches are the source's:
  the \<open>DeviceInfo\<close> field with a non-nil patch; a non-nil patch over a nil field or a
  different value (a new cell holding a copy of the patch's value); otherwise the
  current pointer is kept.
\<close>

definition mergeField :: "addr \<Rightarrow> addr \<Rightarrow> addr \<Rightarrow> heap \<times> bool \<Rightarrow> StateField \<Rightarrow> heap \<times> bool" where
  "mergeField newState state stateUpdate acc f =
    (let h = fst acc; changed = snd acc;
         currField = Field_of (states h state) f;
         patchField = Field_of (states h stateUpdate) f in
     if f = F_DeviceInfo \<and> patchField \<noteq> None then
       (case currField of
          None \<Rightarrow> (storeField h newState f patchField, True)
        | Some ca \<Rightarrow>
           (let (h', mergedDeviceInfo) = mergeDeviceInfo h currField patchField
            in (storeField h' newState f mergedDeviceInfo,
                if mergedDeviceInfo \<noteq> currField then True else changed)))
     else
       (case patchField of
          Some pa \<Rightarrow>
           (if (case currField of None \<Rightarrow> True | Some ca \<Rightarrow> cells h ca \<noteq> cells h pa) then
              (let (h', ptr) = new_cell h (cells h pa)
               in (storeField h' newState f (Some ptr), True))
            else (storeField h newState f currField, changed))
        | None \<Rightarrow> (storeField h newState f currField, changed)))"

text \<open>
  \<open>Merge\<close> takes the store and the two pointers \<open>state\<close> and \<open>stateUpdate\<close> and
  returns the store and the pointer it returns: \<open>newState\<close> if \<open>changed\<close>, else
  \<open>state\<close> itself.
\<close>

definition Merge :: "heap \<Rightarrow> addr \<Rightarrow> addr \<Rightarrow> heap \<times> addr" where
  "Merge h state stateUpdate =
    (let (h0, newState) = new_State h emptyState;
         (h1, changed) = foldl (mergeField newState state stateUpdate) (h0, False) stateFields
     in if changed then (h1, newState) else (h1, state))"

subsection \<open>Auxiliary notions for the proofs about \<open>Merge\<close>\<close>

text \<open>
  \<open>extends na h h'\<close>: the store \<open>h'\<close> differs from \<open>h\<close> only above the allocation
  mark of \<open>h\<close> and in the \<open>State\<close> object at \<open>na\<close>. The scalar fields come first
  in the loop of \<open>Merge\<close>, \<open>DeviceInfo\<close> last.
\<close>

definition extends :: "addr \<Rightarrow> heap \<Rightarrow> heap \<Rightarrow> bool" where
  "extends na h h' \<longleftrightarrow>
     nxt h \<le> nxt h' \<and>
     (\<forall>a<nxt h. cells h' a = cells h a \<and> dinfos h' a = dinfos h a) \<and>
     (\<forall>a. a \<noteq> na \<longrightarrow> states h' a = states h a)"

definition scalarFields :: "StateField list" where
  "scalarFields = butlast stateFields"

subsection \<open>Constructor, setters and getters of \<open>State\<close>\<close>

text \<open>
  \<open>NewState\<close> returns \<open>&State{}\<close>. A setter \<open>state.F = &value\<close> puts the value in
  a new cell and stores the cell's address in the receiver; it returns the receiver.
  A getter reads through the pointer and returns the zero value for \<open>nil\<close>;
  \<open>GetLastVideoPacketTime\<close> returns the pointer itself, and the model what it
  points to.
\<close>

definition NewState :: "heap \<Rightarrow> heap \<times> addr" where
  "NewState h = new_State h emptyState"

definition SetStreamState :: "heap \<Rightarrow> addr \<Rightarrow> StreamState \<Rightarrow> heap \<times> addr" where
  "SetStreamState h state v =
     (let (h', a) = new_cell h (VStreamState v) in (storeField h' state F_StreamState (Some a), state))"

definition SetStreamRequestState :: "heap \<Rightarrow> addr \<Rightarrow> StreamRequestState \<Rightarrow> heap \<times> addr" where
  "SetStreamRequestState h state v =
     (let (h', a) = new_cell h (VStreamRequestState v)
      in (storeField h' state F_StreamRequestState (Some a), state))"

definition SetLastVideoPacketTime :: "heap \<Rightarrow> addr \<Rightarrow> 64 word \<Rightarrow> heap \<times> addr" where
  "SetLastVideoPacketTime h state v =
     (let (h', a) = new_cell h (VInt64 v) in (storeField h' state F_LastVideoPacketTime (Some a), state))"

definition SetWebsocketAlive :: "heap \<Rightarrow> addr \<Rightarrow> bool \<Rightarrow> heap \<times> addr" where
  "SetWebsocketAlive h state v =
     (let (h', a) = new_cell h (VBool v) in (storeField h' state F_IsWebsocketAlive (Some a), state))"

definition GetStreamState :: "heap \<Rightarrow> State \<Rightarrow> StreamState" where
  "GetStreamState h s =
     (case StreamState s of
        Some a \<Rightarrow> (case cells h a of VStreamState v \<Rightarrow> v | _ \<Rightarrow> StreamState_Unknown)
      | None \<Rightarrow> StreamState_Unknown)"

definition GetStreamRequestState :: "heap \<Rightarrow> State \<Rightarrow> StreamRequestState" where
  "GetStreamRequestState h s =
     (case StreamRequestState s of
        Some a \<Rightarrow> (case cells h a of VStreamRequestState v \<Rightarrow> v | _ \<Rightarrow> StreamRequestState_NotRequested)
      | None \<Rightarrow> StreamRequestState_NotRequested)"

definition GetIsWebsocketAlive :: "heap \<Rightarrow> State \<Rightarrow> bool" where
  "GetIsWebsocketAlive h s =
     (case IsWebsocketAlive s of
        Some a \<Rightarrow> (case cells h a of VBool b \<Rightarrow> b | _ \<Rightarrow> False)
      | None \<Rightarrow> False)"

definition GetLastVideoPacketTime :: "heap \<Rightarrow> State \<Rightarrow> val option" where
  "GetLastVideoPacketTime h s = map_option (cells h) (LastVideoPacketTime s)"

subsection \<open>The state store\<close>

text \<open>
  Modelled from the spec: the type \<open>baby.StateManager\<close> is used by the sources but
  not declared among them. Section 2 of the specification: an in-memory map from device
  UID to state record, with subscribers that are notified of each change.
  \<open>babiesByUID\<close> is the map (to the address of the record), \<open>notified\<close> lists the
  notifications issued so far, each with the UID and the update.
\<close>

record StateManager =
  babiesByUID :: "string \<rightharpoonup> addr"
  notified :: "(string \<times> addr) list"

text \<open>
  Modelled from the spec: the method \<open>StateManager.Update\<close> is called by the sources
  but not among them. Section 4.2 of the specification: \<open>update\<close> performs the
  field-level merge; if no field changed, the store returns the unchanged prior record
  without notifying subscribers; if any field changed, all subscribers are invoked with
  the UID and the update. The merge is \<open>Merge\<close>, whose result is the prior record
  exactly when it found no change; an absent UID starts from a new empty record.
\<close>

definition Update :: "heap \<Rightarrow> StateManager \<Rightarrow> string \<Rightarrow> addr \<Rightarrow> heap \<times> StateManager \<times> bool" where
  "Update h m babyUID stateUpdate =
     (let (h1, current) = (case babiesByUID m babyUID of
                             Some a \<Rightarrow> (h, a)
                           | None \<Rightarrow> NewState h);
          (h2, updated) = Merge h1 current stateUpdate
      in if updated = current then (h2, m, False)
         else (h2, m\<lparr>babiesByUID := (babiesByUID m)(babyUID \<mapsto> updated),
                      notified := notified m @ [(babyUID, stateUpdate)]\<rparr>, True))"

text \<open>
  Modelled from the spec: the method \<open>StateManager.GetBabyState\<close> is called by the
  sources but not among them. Section 4.2 of the specification: \<open>get\<close> returns the
  current state, never nil; an absent UID returns a fresh empty record.
\<close>

definition GetBabyState :: "heap \<Rightarrow> StateManager \<Rightarrow> string \<Rightarrow> State" where
  "GetBabyState h m babyUID =
     (case babiesByUID m babyUID of Some a \<Rightarrow> states h a | None \<Rightarrow> emptyState)"

section \<open>The RTMP server: registry of broadcasters, publisher and subscriber connections\<close>

text \<open>
  \<open>rtmpHandler\<close> holds the state manager and the map \<open>broadcastersByUID\<close> from a
  UID to a pointer to its broadcaster. The record below adds what the handler's methods
  act on: the store of the state records (\<open>mem\<close>), the broadcaster and subscriber
  objects, and the network connections closed with \<open>nc.Close()\<close>.

  The types \<open>broadcaster\<close> and \<open>subscriber\<close> are not declared among the sources.
  Section 3 of the specification: a publisher holds a set of subscriber channels, each
  a buffered message queue feeding one downstream connection. \<open>subscribersOf b\<close> is
  the subscriber set of the broadcaster at address \<open>b\<close>, and \<open>pktC_closed sub\<close>
  tells whether the queue \<open>pktC\<close> of the subscriber at address \<open>sub\<close> is closed.
\<close>

type_synonym conn = nat

record rtmpHandler =
  mem :: heap
  babyStateManager :: StateManager
  broadcastersByUID :: "string \<rightharpoonup> addr"
  subscribersOf :: "addr \<Rightarrow> addr list"
  pktC_closed :: "addr \<Rightarrow> bool"
  nextObj :: addr
  closedConns :: "conn list"

text \<open>
  Modelled from the spec: the constructor \<open>newBroadcaster\<close> is called by
  \<open>getNewPublisher\<close> but not among the sources. Section 3 of the specification: a
  publisher is created on the first inbound publish connection; it starts with no
  subscriber.
\<close>

definition newBroadcaster :: "rtmpHandler \<Rightarrow> rtmpHandler \<times> addr" where
  "newBroadcaster s =
     (s\<lparr>subscribersOf := (subscribersOf s)(nextObj s := []), nextObj := Suc (nextObj s)\<rparr>,
      nextObj s)"

text \<open>
  Modelled from the spec: the method \<open>broadcaster.newSubscriber\<close> is called by
  \<open>getNewSubscriber\<close> but not among the sources. Sections 3 and 4.3 of the
  specification: a subscriber is a queue fed by the publisher, one of the publisher's
  current subscribers from then on.
\<close>

definition newSubscriber :: "rtmpHandler \<Rightarrow> addr \<Rightarrow> rtmpHandler \<times> addr" where
  "newSubscriber s b =
     (s\<lparr>subscribersOf := (subscribersOf s)(b := subscribersOf s b @ [nextObj s]),
        pktC_closed := (pktC_closed s)(nextObj s := False),
        nextObj := Suc (nextObj s)\<rparr>,
      nextObj s)"

text \<open>
  Modelled from the spec: the method \<open>broadcaster.closeSubscribers\<close> is called by
  \<open>getNewPublisher\<close> and \<open>closePublisher\<close> but not among the sources. Sections 3
  and 4.3 of the specification: the subscribers of a publisher that is superseded or
  whose source disconnects are closed (their queues close).
\<close>

definition closeSubscribers :: "rtmpHandler \<Rightarrow> addr \<Rightarrow> rtmpHandler" where
  "closeSubscribers s b =
     s\<lparr>pktC_closed := (\<lambda>sub. if sub \<in> set (subscribersOf s b) then True else pktC_closed s sub)\<rparr>"

text \<open>
  \<open>getNewPublisher\<close> swaps the registry entry and closes the subscribers of the
  broadcaster it replaced (the source does so in a goroutine of its own).
\<close>

definition getNewPublisher :: "rtmpHandler \<Rightarrow> string \<Rightarrow> rtmpHandler \<times> addr" where
  "getNewPublisher s babyUID =
     (let (s1, broadcaster) = newBroadcaster s;
          existingBroadcaster = broadcastersByUID s1 babyUID;
          s2 = s1\<lparr>broadcastersByUID := (broadcastersByUID s1)(babyUID \<mapsto> broadcaster)\<rparr>
      in case existingBroadcaster of
           Some e \<Rightarrow> (closeSubscribers s2 e, broadcaster)
         | None \<Rightarrow> (s2, broadcaster))"

text \<open>
  \<open>getNewSubscriber\<close> returns the subscriber pointer and the \<open>unsubscribe\<close> closure;
  the closure is represented by the pair it captures (broadcaster, subscriber).
\<close>

definition getNewSubscriber :: "rtmpHandler \<Rightarrow> string \<Rightarrow> rtmpHandler \<times> addr option \<times> (addr \<times> addr) option" where
  "getNewSubscriber s babyUID =
     (case broadcastersByUID s babyUID of
        None \<Rightarrow> (s, None, None)
      | Some broadcaster \<Rightarrow>
          (let (s', sub) = newSubscriber s broadcaster
           in (s', Some sub, Some (broadcaster, sub))))"

definition closePublisher :: "rtmpHandler \<Rightarrow> string \<Rightarrow> addr \<Rightarrow> rtmpHandler" where
  "closePublisher s babyUID b =
     (let s1 = (case broadcastersByUID s babyUID of
                  Some currBroadcaster \<Rightarrow>
                    if currBroadcaster = b
                    then s\<lparr>broadcastersByUID := (broadcastersByUID s)(babyUID := None)\<rparr>
                    else s
                | None \<Rightarrow> s)
      in closeSubscribers s1 b)"

text \<open>
  The subscriber branch of \<open>handleConnection\<close> up to its loop: connection \<open>nc\<close> asks
  to play the stream of \<open>babyUID\<close>. The result tells whether the handler goes on to
  serve the subscriber (\<open>Some\<close> of it) or has returned.
\<close>

definition handleConnection_subscriber :: "rtmpHandler \<Rightarrow> conn \<Rightarrow> string \<Rightarrow> rtmpHandler \<times> addr option" where
  "handleConnection_subscriber s nc babyUID =
     (let (s', subscriber, unsubscribe) = getNewSubscriber s babyUID
      in case subscriber of
           None \<Rightarrow> (s'\<lparr>closedConns := nc # closedConns s'\<rparr>, None)
         | Some sub \<Rightarrow> (s', Some sub))"

text \<open>
  The branch \<open>err != nil\<close> of the publisher's loop in \<open>handleConnection\<close>:
  \<open>Update(babyUID, *NewState().SetStreamState(Unhealthy).SetLastVideoPacketTime(0))\<close>,
  then \<open>closePublisher(babyUID, publisher)\<close>, then \<open>return\<close>.
\<close>

definition handleConnection_readError :: "rtmpHandler \<Rightarrow> string \<Rightarrow> addr \<Rightarrow> rtmpHandler" where
  "handleConnection_readError s babyUID publisher =
     (let (h1, st) = NewState (mem s);
          (h2, st) = SetStreamState h1 st StreamState_Unhealthy;
          (h3, st) = SetLastVideoPacketTime h2 st 0;
          (h4, m, changed) = Update h3 (babyStateManager s) babyUID st
      in closePublisher (s\<lparr>mem := h4, babyStateManager := m\<rparr>) babyUID publisher)"

text \<open>The patch that the publisher's error branch builds.\<close>

definition unhealthyPatch :: "heap \<Rightarrow> heap" where
  "unhealthyPatch h =
     fst (SetLastVideoPacketTime (fst (SetStreamState (fst (NewState h)) (nxt h) StreamState_Unhealthy)) (nxt h) 0)"

section \<open>pkg/client/websocket_conn.go: requests and their responses\<close>

text \<open>
  The protobuf types \<open>Request\<close> and \<open>Response\<close> are declared outside the sources;
  the records keep the fields the connection reads and writes, each a pointer that may
  be \<open>nil\<close>. A request type is a protobuf enum, an \<open>int32\<close>.
\<close>

type_synonym RequestType = "32 word"

record Request =
  ReqId :: "32 word option"
  ReqType :: "RequestType option"

record Response =
  RequestId :: "32 word option"
  RequestType :: "RequestType option"
  StatusCode :: "32 word option"
  StatusMessage :: "string option"

text \<open>
  \<open>resC := make(chan *Response, 1)\<close>: a channel with one buffer slot. \<open>buf\<close> is the
  slot, \<open>closed\<close> tells whether \<open>close\<close> has been called. Channels are shared between
  the closure stored in \<open>resHandlers\<close> and the awaiter, so they live in a store of the
  connection.
\<close>

record chan =
  buf :: "Response option"
  closed :: bool

record unhandledRequest =
  Request :: Request
  resC :: addr

record WebsocketConnection =
  resHandlers :: "32 word \<rightharpoonup> unhandledRequest"
  lastRequestID :: "32 word"
  chans :: "addr \<Rightarrow> chan"
  nextChan :: addr
  sent :: "Request list"

definition NewWebsocketConnection :: WebsocketConnection where
  "NewWebsocketConnection =
     \<lparr>resHandlers = Map.empty, lastRequestID = 0,
      chans = (\<lambda>_. \<lparr>buf = None, closed = False\<rparr>), nextChan = 0, sent = []\<rparr>"

datatype error =
  RequestTimeout
  | NoStatusCode
  | StatusError string
  | UnexpectedStatusCode "32 word"
  | FailedToSend string

text \<open>
  The closure \<open>HandleResponse\<close> of a pending request, for its channel \<open>c\<close>:
  \<open>select { case <-resC: return; default: resC <- res }\<close>. The receive is ready when
  the slot is full or the channel is closed, and it takes what is in the slot.
\<close>

definition HandleResponse :: "addr \<Rightarrow> Response \<Rightarrow> WebsocketConnection \<Rightarrow> WebsocketConnection" where
  "HandleResponse c res conn =
     (let ch = chans conn c in
      if buf ch \<noteq> None \<or> closed ch
      then conn\<lparr>chans := (chans conn)(c := ch\<lparr>buf := None\<rparr>)\<rparr>
      else conn\<lparr>chans := (chans conn)(c := ch\<lparr>buf := Some res\<rparr>)\<rparr>)"

text \<open>
  What \<open>SendRequest\<close> returns: the awaiter of a request that could not be sent, or the
  awaiter that waits on channel \<open>c\<close>.
\<close>

datatype awaiter = SendFailed string | Awaiter addr

text \<open>
  \<open>SendRequest\<close>. \<open>atomic.AddInt32\<close> wraps around, as word addition does.
  \<open>marshal\<close> is the outcome of \<open>proto.Marshal\<close> in \<open>SendMessage\<close>: \<open>None\<close> for
  success, else the error text.
\<close>

definition SendRequest ::
  "WebsocketConnection \<Rightarrow> RequestType \<Rightarrow> Request \<Rightarrow> string option \<Rightarrow> WebsocketConnection \<times> awaiter" where
  "SendRequest conn reqType requestData marshal =
     (let ident = lastRequestID conn + 1;
          request = requestData\<lparr>ReqId := Some ident, ReqType := Some reqType\<rparr>;
          c = nextChan conn;
          conn1 = conn\<lparr>lastRequestID := ident,
                       chans := (chans conn)(c := \<lparr>buf = None, closed = False\<rparr>),
                       nextChan := Suc c,
                       resHandlers := (resHandlers conn)(ident \<mapsto> \<lparr>Request = request, resC = c\<rparr>)\<rparr>
      in case marshal of
           Some err \<Rightarrow> (conn1, SendFailed err)
         | None \<Rightarrow> (conn1\<lparr>sent := sent conn1 @ [request]\<rparr>, Awaiter c))"

text \<open>
  Calling the awaiter. Its \<open>select\<close> takes the case of the timer (\<open>TimerC\<close>) or the
  case of the channel (\<open>ResC\<close>); which one is the caller's environment to say. The
  channel case is not ready (\<open>Blocked\<close>) while the slot is empty and the channel open.
  \<open>close\<close> of a closed channel and a \<open>nil\<close> dereference are run-time panics.
\<close>

datatype select_case = TimerC | ResC

datatype await_result = Returned "Response option" "error option" | Blocked | Panicked

definition statusOf :: "Response \<Rightarrow> await_result" where
  "statusOf res =
     (case StatusCode res of
        None \<Rightarrow> Returned (Some res) (Some NoStatusCode)
      | Some code \<Rightarrow>
          if code \<noteq> 200 then
            (if (case StatusMessage res of Some m \<Rightarrow> m | None \<Rightarrow> []) \<noteq> []
             then Returned (Some res) (Some (StatusError (case StatusMessage res of Some m \<Rightarrow> m | None \<Rightarrow> [])))
             else Returned (Some res) (Some (UnexpectedStatusCode code)))
          else Returned (Some res) None)"

definition await :: "awaiter \<Rightarrow> select_case \<Rightarrow> WebsocketConnection \<Rightarrow> WebsocketConnection \<times> await_result" where
  "await aw sel conn =
     (case aw of
        SendFailed err \<Rightarrow> (conn, Returned None (Some (FailedToSend err)))
      | Awaiter c \<Rightarrow>
          (let ch = chans conn c in
           case sel of
             TimerC \<Rightarrow>
               if closed ch then (conn, Panicked)
               else (conn\<lparr>chans := (chans conn)(c := ch\<lparr>closed := True\<rparr>)\<rparr>,
                     Returned None (Some RequestTimeout))
           | ResC \<Rightarrow>
               (case buf ch of
                  None \<Rightarrow> if closed ch then (conn, Panicked) else (conn, Blocked)
                | Some res \<Rightarrow>
                    if closed ch then (conn\<lparr>chans := (chans conn)(c := ch\<lparr>buf := None\<rparr>)\<rparr>, Panicked)
                    else (conn\<lparr>chans := (chans conn)(c := \<lparr>buf = None, closed = True\<rparr>)\<rparr>,
                          statusOf res))))"

text \<open>
  \<open>handleResponse\<close>. \<open>*r.RequestId\<close> and \<open>*r.RequestType\<close> panic on \<open>nil\<close>
  (the result \<open>None\<close>). A response is handed to the pending request only if an entry
  is stored under its request ID and the request types agree; the entry is deleted
  first.
\<close>

definition handleResponse :: "WebsocketConnection \<Rightarrow> Response \<Rightarrow> WebsocketConnection option" where
  "handleResponse conn r =
     (case RequestId r of
        None \<Rightarrow> None
      | Some requestID \<Rightarrow>
         (case RequestType r of
            None \<Rightarrow> None
          | Some requestType \<Rightarrow>
             (case resHandlers conn requestID of
                None \<Rightarrow> Some conn
              | Some unhandledReqCandidate \<Rightarrow>
                 (case ReqType (Request unhandledReqCandidate) of
                    None \<Rightarrow> None
                  | Some t \<Rightarrow>
                     if requestType = t
                     then Some (HandleResponse (resC unhandledReqCandidate) r
                                 (conn\<lparr>resHandlers := (resHandlers conn)(requestID := None)\<rparr>))
                     else Some conn))))"

text \<open>
  The connection after a request was sent and its awaiter woke up on the timer.
\<close>

definition timedOut :: "WebsocketConnection \<Rightarrow> RequestType \<Rightarrow> Request \<Rightarrow> WebsocketConnection" where
  "timedOut conn reqType req =
     fst (await (snd (SendRequest conn reqType req None)) TimerC (fst (SendRequest conn reqType req None)))"

section \<open>The HLS transcoder: failure classification and retry\<close>

datatype StreamStatus =
  StatusStarting | StatusConnecting | StatusStreaming | StatusError | StatusStopped

record StreamError =
  Type :: string
  Message :: string
  Code :: string

definition ErrorTypeRTMPConnection :: string where "ErrorTypeRTMPConnection = ''rtmp_connection''"
definition ErrorTypeRTMPTimeout :: string where "ErrorTypeRTMPTimeout = ''rtmp_timeout''"
definition ErrorTypeFFmpegFailed :: string where "ErrorTypeFFmpegFailed = ''ffmpeg_failed''"
definition ErrorTypeNetworkError :: string where "ErrorTypeNetworkError = ''network_error''"
definition ErrorTypeUnknown :: string where "ErrorTypeUnknown = ''unknown''"

text \<open>
  The fields of \<open>HLSTranscoder\<close> that the supervisor's decisions read and write.
  Times and durations are in nanoseconds. In place of the process handle \<open>cmd\<close>,
  \<open>launches\<close> counts the calls of \<open>cmd.Start()\<close> that succeeded; \<open>pendingRetries\<close>
  counts the goroutines of \<open>scheduleRetry\<close> that wait for their timer.
\<close>

record HLSTranscoder =
  babyUID :: string
  rtmpURL :: string
  isRunning :: bool
  status :: StreamStatus
  lastError :: "StreamError option"
  startTime :: int
  retryCount :: int
  maxRetries :: int
  retryDelay :: int
  launches :: nat
  pendingRetries :: nat

definition second :: int where
  "second = 1000000000"

definition NewHLSTranscoder :: "string \<Rightarrow> string \<Rightarrow> HLSTranscoder" where
  "NewHLSTranscoder uid url =
     \<lparr>babyUID = uid, rtmpURL = url, isRunning = False, status = StatusStopped, lastError = None,
      startTime = 0, retryCount = 0, maxRetries = 5, retryDelay = 10 * second,
      launches = 0, pendingRetries = 0\<rparr>"

definition setError :: "HLSTranscoder \<Rightarrow> string \<Rightarrow> string \<Rightarrow> string \<Rightarrow> HLSTranscoder" where
  "setError h errorType message code =
     h\<lparr>status := StatusError,
       lastError := Some \<lparr>Type = errorType, Message = message, Code = code\<rparr>\<rparr>"

text \<open>\<open>strings.Contains\<close>: the second string occurs in the first.\<close>

fun Contains :: "string \<Rightarrow> string \<Rightarrow> bool" where
  "Contains [] substr = (substr = [])"
| "Contains (c # cs) substr = (prefix substr (c # cs) \<or> Contains cs substr)"

text \<open>
  \<open>Start\<close>: \<open>mkdir\<close> and \<open>start\<close> are the outcomes of \<open>os.MkdirAll\<close> and
  \<open>cmd.Start()\<close> (\<open>None\<close> for success, else the error text), \<open>now\<close> is
  \<open>time.Now()\<close>. The result is the transcoder and the error returned; on success the
  goroutine \<open>monitor\<close> has been started. The files of the HLS directory, which
  \<open>Start\<close> removes, are not part of the record.
\<close>

definition Start :: "HLSTranscoder \<Rightarrow> int \<Rightarrow> string option \<Rightarrow> string option \<Rightarrow> HLSTranscoder \<times> string option" where
  "Start h now mkdir start =
     (if isRunning h then (h, Some (''transcoder already running for baby '' @ babyUID h))
      else
        (let h1 = h\<lparr>status := StatusStarting, lastError := None, startTime := now, retryCount := 0\<rparr>
         in case mkdir of
              Some err \<Rightarrow> (setError h1 ErrorTypeFFmpegFailed ''Failed to create HLS directory'' err,
                            Some (''failed to create HLS directory: '' @ err))
            | None \<Rightarrow>
               (case start of
                  Some err \<Rightarrow> (setError h1 ErrorTypeFFmpegFailed ''Failed to start FFmpeg process'' err,
                                Some (''failed to start FFmpeg: '' @ err))
                | None \<Rightarrow> (h1\<lparr>isRunning := True, status := StatusConnecting,
                                  launches := Suc (launches h1)\<rparr>, None))))"

definition classifyAndSetError :: "HLSTranscoder \<Rightarrow> int \<Rightarrow> string \<Rightarrow> HLSTranscoder" where
  "classifyAndSetError h now errStr =
     (if Contains errStr ''Connection refused'' \<or> Contains errStr ''Connection reset''
         \<or> Contains errStr ''No route to host''
      then setError h ErrorTypeRTMPConnection ''Cannot connect to RTMP server'' errStr
      else if Contains errStr ''Connection timed out'' \<or> Contains errStr ''timeout''
      then setError h ErrorTypeRTMPTimeout ''RTMP connection timed out'' errStr
      else if Contains errStr ''Server error'' \<or> Contains errStr ''403'' \<or> Contains errStr ''404''
      then setError h ErrorTypeRTMPConnection ''RTMP server rejected connection'' errStr
      else if Contains errStr ''exit status''
      then (if now - startTime h < 10 * second
            then setError h ErrorTypeRTMPConnection ''RTMP stream not available'' errStr
            else setError h ErrorTypeNetworkError ''Stream disconnected unexpectedly'' errStr)
      else setError h ErrorTypeUnknown ''FFmpeg process failed'' errStr)"

definition shouldRetry :: "HLSTranscoder \<Rightarrow> bool" where
  "shouldRetry h =
     (if retryCount h \<ge> maxRetries h then False
      else (case lastError h of
              Some e \<Rightarrow>
                if Type e = ErrorTypeRTMPConnection \<or> Type e = ErrorTypeRTMPTimeout
                   \<or> Type e = ErrorTypeNetworkError
                then True else False
            | None \<Rightarrow> False))"

text \<open>
  \<open>scheduleRetry\<close> increments the counter and starts a goroutine that waits
  \<open>retryDelay\<close>; the goroutine's body is \<open>retryTimer\<close> below.
\<close>

definition scheduleRetry :: "HLSTranscoder \<Rightarrow> HLSTranscoder" where
  "scheduleRetry h = h\<lparr>retryCount := retryCount h + 1, pendingRetries := Suc (pendingRetries h)\<rparr>"

text \<open>
  \<open>monitor\<close> from the \<open>select\<close> on: either the stop channel was closed
  (\<open>StopChan\<close>) or the process ended (\<open>Done\<close>, with the error of \<open>cmd.Wait()\<close>).
  The deferred function runs when \<open>monitor\<close> returns, on every path:
  \<open>isRunning = false\<close>, and \<open>status = StatusStopped\<close> unless the status is
  \<open>StatusError\<close>. The goroutine that polls for output files and sets
  \<open>StatusStreaming\<close> runs beside the \<open>select\<close>; what it did is part of the state
  \<open>h\<close> in which the \<open>select\<close> fires.
\<close>

datatype monitor_event = StopChan | Done "string option"

definition monitor_deferred :: "HLSTranscoder \<Rightarrow> HLSTranscoder" where
  "monitor_deferred h =
     (let h1 = h\<lparr>isRunning := False\<rparr>
      in if status h1 \<noteq> StatusError then h1\<lparr>status := StatusStopped\<rparr> else h1)"

definition monitor :: "HLSTranscoder \<Rightarrow> int \<Rightarrow> monitor_event \<Rightarrow> HLSTranscoder" where
  "monitor h now ev =
     monitor_deferred
       (case ev of
          StopChan \<Rightarrow> h
        | Done None \<Rightarrow> h
        | Done (Some err) \<Rightarrow>
            (let h1 = classifyAndSetError h now err
             in if shouldRetry h1 then scheduleRetry h1 else h1))"

text \<open>
  \<open>restartFFmpeg\<close>, with the outcome of \<open>cmd.Start()\<close>; on success a new
  \<open>monitor\<close> goroutine watches the new process.
\<close>

definition restartFFmpeg :: "HLSTranscoder \<Rightarrow> string option \<Rightarrow> HLSTranscoder" where
  "restartFFmpeg h start =
     (case start of
        Some err \<Rightarrow> setError h ErrorTypeFFmpegFailed ''Failed to restart FFmpeg process'' err
      | None \<Rightarrow> h\<lparr>launches := Suc (launches h)\<rparr>)"

text \<open>
  The goroutine of \<open>scheduleRetry\<close> once \<open>time.After(h.retryDelay)\<close> has fired:
  it gives up if the transcoder is not running, else it sets the status to
  \<open>StatusConnecting\<close>, clears the error and restarts the process.
\<close>

definition retryTimer :: "HLSTranscoder \<Rightarrow> string option \<Rightarrow> HLSTranscoder" where
  "retryTimer h start =
     (let h0 = h\<lparr>pendingRetries := pendingRetries h - 1\<rparr>
      in if \<not> isRunning h0 then h0
         else restartFFmpeg (h0\<lparr>status := StatusConnecting, lastError := None\<rparr>) start)"

definition GetStatus :: "HLSTranscoder \<Rightarrow> StreamStatus \<times> StreamError option" where
  "GetStatus h = (status h, lastError h)"

section \<open>pkg/app/app.go: the streaming retry monitor\<close>

record RTMPOpts =
  ListenAddr :: string
  PublicAddr :: string
  AutoStart :: bool

text \<open>
  The parts of \<open>App\<close> the retry monitor reads: the option \<open>Opts.RTMP\<close> (a pointer),
  the registry \<open>connections\<close> of websocket connections by UID, and the state manager
  with the store its records live in.
\<close>

record App =
  Opts_RTMP :: "RTMPOpts option"
  connections :: "string \<rightharpoonup> conn"
  BabyStateManager :: StateManager
  appMem :: heap

definition getConnection :: "App \<Rightarrow> string \<Rightarrow> conn option" where
  "getConnection app uid = connections app uid"

definition shouldRetryStreaming :: "App \<Rightarrow> string \<Rightarrow> bool" where
  "shouldRetryStreaming app uid =
     (case Opts_RTMP app of
        None \<Rightarrow> False
      | Some rtmp \<Rightarrow>
          if \<not> AutoStart rtmp then False
          else
            (let babyState = GetBabyState (appMem app) (BabyStateManager app) uid
             in GetIsWebsocketAlive (appMem app) babyState
                \<and> GetStreamRequestState (appMem app) babyState = StreamRequestState_RequestFailed
                \<and> GetStreamState (appMem app) babyState \<noteq> StreamState_Alive))"

text \<open>
  \<open>startStreamingRetryMonitor\<close>: the loop selects on the ticker (every
  \<open>retryInterval\<close>) and on the context. An event \<open>TickerC app\<close> is a tick at which
  the application is in state \<open>app\<close>; \<open>CtxDone\<close> ends the monitor. The result lists
  the connections for which \<open>go app.retryStreaming(babyUID, conn)\<close> was started, in
  order.
\<close>

definition retryInterval :: int where
  "retryInterval = 60 * second"

datatype retry_event = TickerC App | CtxDone

fun startStreamingRetryMonitor :: "string \<Rightarrow> retry_event list \<Rightarrow> conn list" where
  "startStreamingRetryMonitor uid [] = []"
| "startStreamingRetryMonitor uid (CtxDone # evs) = []"
| "startStreamingRetryMonitor uid (TickerC app # evs) =
     (if shouldRetryStreaming app uid
      then (case getConnection app uid of
              Some c \<Rightarrow> [c]
            | None \<Rightarrow> [])
      else []) @ startStreamingRetryMonitor uid evs"

section \<open>\<open>EnsureValidBabyUID\<close>\<close>

text \<open>
  \<open>validUID\<close> is the regular expression \<^verbatim>\<open>^[a-z0-9_-]+$\<close>. \<open>validUID_class\<close> is its
  character class, by the byte ranges of the class; \<open>validUID_MatchString\<close> is a match
  of the anchored expression: one or more characters of the class, and nothing else.
  Go matches UTF-8 text; a byte above 127 belongs to no character of the class.
\<close>

definition validUID_class :: "char \<Rightarrow> bool" where
  "validUID_class c \<longleftrightarrow>
     (of_char (CHR ''a'') \<le> (of_char c :: nat) \<and> (of_char c :: nat) \<le> of_char (CHR ''z''))
     \<or> (of_char (CHR ''0'') \<le> (of_char c :: nat) \<and> (of_char c :: nat) \<le> of_char (CHR ''9''))
     \<or> c = CHR ''_'' \<or> c = CHR ''-''"

fun validUID_MatchString :: "string \<Rightarrow> bool" where
  "validUID_MatchString [] = False"
| "validUID_MatchString [c] = validUID_class c"
| "validUID_MatchString (c # cs) = (validUID_class c \<and> validUID_MatchString cs)"

definition EnsureValidBabyUID :: "string \<Rightarrow> string option" where
  "EnsureValidBabyUID uid =
     (if \<not> validUID_MatchString uid
      then Some (''invalid baby UID '' @ [CHR 0x27] @ uid @ [CHR 0x27]
                 @ '': contains unsafe characters (only lowercase letters, numbers, underscore, and hyphen allowed)'')
      else None)"

section \<open>Concrete inputs\<close>

text \<open>
  Stores for the concrete runs of \<open>Merge\<close>. In each, the receiver is the \<open>State\<close> at
  address 4 and the patch the \<open>State\<close> at address 5; their \<open>DeviceInfo\<close> objects are
  at 2 and 3, and the cells these point to at 0 and 1.

  \<open>lastUpdatedHeap\<close>: the receiver's device info was last updated at 100, the patch's
  at 200. \<open>sameVolumeHeap\<close>: both device infos have volume 5 and nothing else.
\<close>

definition emptyHeap :: heap where
  "emptyHeap = \<lparr>cells = (\<lambda>_. VBool False), dinfos = (\<lambda>_. emptyDeviceInfo),
                 states = (\<lambda>_. emptyState), nxt = 0\<rparr>"

definition lastUpdatedHeap :: heap where
  "lastUpdatedHeap = emptyHeap\<lparr>
     cells := (cells emptyHeap)(0 := VInt64 100, 1 := VInt64 200),
     dinfos := (dinfos emptyHeap)(2 := emptyDeviceInfo\<lparr>LastUpdated := Some 0\<rparr>,
                                  3 := emptyDeviceInfo\<lparr>LastUpdated := Some 1\<rparr>),
     states := (states emptyHeap)(4 := emptyState\<lparr>DeviceInfo := Some 2\<rparr>,
                                  5 := emptyState\<lparr>DeviceInfo := Some 3\<rparr>),
     nxt := 6\<rparr>"

definition sameVolumeHeap :: heap where
  "sameVolumeHeap = emptyHeap\<lparr>
     cells := (cells emptyHeap)(0 := VInt32 5, 1 := VInt32 5),
     dinfos := (dinfos emptyHeap)(2 := emptyDeviceInfo\<lparr>Volume := Some 0\<rparr>,
                                  3 := emptyDeviceInfo\<lparr>Volume := Some 1\<rparr>),
     states := (states emptyHeap)(4 := emptyState\<lparr>DeviceInfo := Some 2\<rparr>,
                                  5 := emptyState\<lparr>DeviceInfo := Some 3\<rparr>),
     nxt := 6\<rparr>"

text \<open>
  A handler state for the RTMP server: the device \<open>abc\<close> has a state record (at
  address 4) with liveness \<open>Alive\<close> and websocket alive, and a publisher (the
  broadcaster at 5) with the two subscribers 6 and 7, both open; subscriber 9 belongs
  to another broadcaster.
\<close>

definition liveHandler :: rtmpHandler where
  "liveHandler =
     \<lparr>mem = emptyHeap\<lparr>cells := (cells emptyHeap)(2 := VStreamState StreamState_Alive, 3 := VBool True),
                        states := (states emptyHeap)
                           (4 := emptyState\<lparr>StreamState := Some 2, IsWebsocketAlive := Some 3\<rparr>),
                        nxt := 5\<rparr>,
      babyStateManager = \<lparr>babiesByUID = [''abc'' \<mapsto> 4], notified = []\<rparr>,
      broadcastersByUID = [''abc'' \<mapsto> 5],
      subscribersOf = (\<lambda>_. [])(5 := [6, 7], 8 := [9]),
      pktC_closed = (\<lambda>_. False),
      nextObj = 10,
      closedConns = []\<rparr>"

text \<open>
  For the websocket connection: a request without payload, a successful response with
  a given request ID and request type, and the new connection after one request of type
  7 was sent (its ID is 1 and its channel is at address 0).
\<close>

definition exampleRequest :: Request where
  "exampleRequest = \<lparr>ReqId = None, ReqType = None\<rparr>"

definition exampleResponse :: "32 word \<Rightarrow> RequestType \<Rightarrow> Response" where
  "exampleResponse i t = \<lparr>RequestId = Some i, RequestType = Some t, StatusCode = Some 200, StatusMessage = None\<rparr>"

definition pendingConnection :: WebsocketConnection where
  "pendingConnection = fst (SendRequest NewWebsocketConnection 7 exampleRequest None)"

text \<open>
  A transcoder for the device \<open>abc\<close> after a successful \<open>Start\<close> at time 0.
\<close>

definition startedTranscoder :: HLSTranscoder where
  "startedTranscoder = fst (Start (NewHLSTranscoder ''abc'' ''rtmp://127.0.0.1:1935/local/abc'') 0 None None)"

text \<open>
  An application with RTMP auto-start on, in which the state of device \<open>abc\<close> says
  websocket alive, stream request failed and liveness unknown. \<open>failedApp\<close> has no
  connection registered for the device, \<open>connectedApp\<close> has connection 9.
\<close>

definition failedApp :: App where
  "failedApp =
     \<lparr>Opts_RTMP = Some \<lparr>ListenAddr = '':1935'', PublicAddr = ''127.0.0.1:1935'', AutoStart = True\<rparr>,
      connections = Map.empty,
      BabyStateManager = \<lparr>babiesByUID = [''abc'' \<mapsto> 4], notified = []\<rparr>,
      appMem = emptyHeap\<lparr>
        cells := (cells emptyHeap)(2 := VBool True, 3 := VStreamRequestState StreamRequestState_RequestFailed),
        states := (states emptyHeap)(4 := emptyState\<lparr>IsWebsocketAlive := Some 2, StreamRequestState := Some 3\<rparr>),
        nxt := 5\<rparr>\<rparr>"

definition connectedApp :: App where
  "connectedApp = failedApp\<lparr>connections := [''abc'' \<mapsto> 9]\<rparr>"

section \<open>Proofs: \<open>Merge\<close>\<close>

lemma storeField_simps:
  "cells (storeField h a f v) = cells h"
  "dinfos (storeField h a f v) = dinfos h"
  "nxt (storeField h a f v) = nxt h"
  "states (storeField h a f v) b = (if b = a then SetField f v (states h a) else states h b)"
  by (simp_all add: storeField_def)

lemma Field_SetField: "Field_of (SetField f v s) g = (if g = f then v else Field_of s g)"
  by (cases f; cases g; simp)

lemma new_cell_simps:
  "nxt (fst (new_cell h v)) = Suc (nxt h)"
  "snd (new_cell h v) = nxt h"
  "cells (fst (new_cell h v)) a = (if a = nxt h then v else cells h a)"
  "dinfos (fst (new_cell h v)) = dinfos h"
  "states (fst (new_cell h v)) = states h"
  by (simp_all add: new_cell_def)

lemma new_DeviceInfo_simps:
  "nxt (fst (new_DeviceInfo h d)) = Suc (nxt h)"
  "snd (new_DeviceInfo h d) = nxt h"
  "dinfos (fst (new_DeviceInfo h d)) a = (if a = nxt h then d else dinfos h a)"
  "cells (fst (new_DeviceInfo h d)) = cells h"
  "states (fst (new_DeviceInfo h d)) = states h"
  by (simp_all add: new_DeviceInfo_def)

lemma new_State_simps:
  "nxt (fst (new_State h s)) = Suc (nxt h)"
  "snd (new_State h s) = nxt h"
  "states (fst (new_State h s)) a = (if a = nxt h then s else states h a)"
  "cells (fst (new_State h s)) = cells h"
  "dinfos (fst (new_State h s)) = dinfos h"
  by (simp_all add: new_State_def)

lemma mergeDeviceInfo_both:
  "mergeDeviceInfo h (Some ca) (Some pa) =
     (fst (new_DeviceInfo h (merged (dinfos h ca) (dinfos h pa))), Some (nxt h))"
  by (simp add: mergeDeviceInfo_def new_DeviceInfo_def)

text \<open>The four outcomes of one pass of the loop body.\<close>

lemma mergeField_patch_nil:
  "Field_of (states h su) f = None \<Longrightarrow>
   mergeField na st su (h, c) f = (storeField h na f (Field_of (states h st) f), c)"
  by (simp add: mergeField_def)

lemma mergeField_scalar_same:
  "f \<noteq> F_DeviceInfo \<Longrightarrow> Field_of (states h su) f = Some pa \<Longrightarrow> Field_of (states h st) f = Some ca \<Longrightarrow>
   cells h ca = cells h pa \<Longrightarrow>
   mergeField na st su (h, c) f = (storeField h na f (Some ca), c)"
  by (simp add: mergeField_def)

lemma mergeField_scalar_new:
  "f \<noteq> F_DeviceInfo \<Longrightarrow> Field_of (states h su) f = Some pa \<Longrightarrow>
   (case Field_of (states h st) f of None \<Rightarrow> True | Some ca \<Rightarrow> cells h ca \<noteq> cells h pa) \<Longrightarrow>
   mergeField na st su (h, c) f =
     (storeField (fst (new_cell h (cells h pa))) na f (Some (nxt h)), True)"
  by (simp add: mergeField_def new_cell_def)

lemma mergeField_DeviceInfo_nil:
  "Field_of (states h su) F_DeviceInfo = Some pa \<Longrightarrow> Field_of (states h st) F_DeviceInfo = None \<Longrightarrow>
   mergeField na st su (h, c) F_DeviceInfo = (storeField h na F_DeviceInfo (Some pa), True)"
  by (simp add: mergeField_def)

lemma mergeField_DeviceInfo_both:
  "Field_of (states h su) F_DeviceInfo = Some pa \<Longrightarrow> Field_of (states h st) F_DeviceInfo = Some ca \<Longrightarrow>
   mergeField na st su (h, c) F_DeviceInfo =
     (storeField (fst (new_DeviceInfo h (merged (dinfos h ca) (dinfos h pa)))) na F_DeviceInfo (Some (nxt h)),
      if nxt h \<noteq> ca then True else c)"
  by (simp add: mergeField_def mergeDeviceInfo_both)

lemma mergeField_cases:
  obtains
    (patch_nil) "Field_of (states h su) f = None"
  | (scalar_same) pa ca where "f \<noteq> F_DeviceInfo" "Field_of (states h su) f = Some pa"
      "Field_of (states h st) f = Some ca" "cells h ca = cells h pa"
  | (scalar_new) pa where "f \<noteq> F_DeviceInfo" "Field_of (states h su) f = Some pa"
      "case Field_of (states h st) f of None \<Rightarrow> True | Some ca \<Rightarrow> cells h ca \<noteq> cells h pa"
  | (di_nil) pa where "f = F_DeviceInfo" "Field_of (states h su) f = Some pa" "Field_of (states h st) f = None"
  | (di_both) pa ca where "f = F_DeviceInfo" "Field_of (states h su) f = Some pa" "Field_of (states h st) f = Some ca"
  by (cases "Field_of (states h su) f"; cases "Field_of (states h st) f"; cases "f = F_DeviceInfo"; force)


lemma extends_refl: "extends na h h"
  by (simp add: extends_def)

lemma extends_trans: "extends na h1 h2 \<Longrightarrow> extends na h2 h3 \<Longrightarrow> extends na h1 h3"
  by (auto simp: extends_def)

lemma extends_storeField: "extends na h (storeField h na f v)"
  by (simp add: extends_def storeField_simps)

lemma extends_new_cell: "extends na h (fst (new_cell h v))"
  by (simp add: extends_def new_cell_simps)

lemma extends_new_DeviceInfo: "extends na h (fst (new_DeviceInfo h d))"
  by (simp add: extends_def new_DeviceInfo_simps)

lemma mergeField_extends: "extends na h (fst (mergeField na st su (h, c) f))"
proof (cases rule: mergeField_cases [where h=h and su=su and f=f and st=st])
  case patch_nil
  then show ?thesis by (simp add: mergeField_patch_nil extends_storeField)
next
  case (scalar_same pa ca)
  then show ?thesis by (simp add: mergeField_scalar_same extends_storeField)
next
  case (scalar_new pa)
  then show ?thesis
    by (simp add: mergeField_scalar_new)
       (rule extends_trans [OF extends_new_cell extends_storeField])
next
  case (di_nil pa)
  then show ?thesis by (simp add: mergeField_DeviceInfo_nil extends_storeField)
next
  case (di_both pa ca)
  then show ?thesis
    by (simp add: mergeField_DeviceInfo_both)
       (rule extends_trans [OF extends_new_DeviceInfo extends_storeField])
qed

lemma mergeField_other_field:
  assumes "g \<noteq> f"
  shows "Field_of (states (fst (mergeField na st su (h, c) f)) na) g = Field_of (states h na) g"
proof (cases rule: mergeField_cases [where h=h and su=su and f=f and st=st])
  case (di_nil pa)
  then have "mergeField na st su (h, c) f = (storeField h na f (Some pa), True)"
    by (simp add: mergeField_DeviceInfo_nil)
  with assms show ?thesis by (simp add: storeField_simps Field_SetField)
next
  case (di_both pa ca)
  then have "mergeField na st su (h, c) f =
     (storeField (fst (new_DeviceInfo h (merged (dinfos h ca) (dinfos h pa)))) na f (Some (nxt h)),
      if nxt h \<noteq> ca then True else c)"
    by (simp add: mergeField_DeviceInfo_both)
  with assms show ?thesis by (simp add: storeField_simps Field_SetField new_DeviceInfo_simps)
qed (insert assms, simp_all add: mergeField_patch_nil mergeField_scalar_same mergeField_scalar_new
        storeField_simps Field_SetField new_cell_simps)

lemma mergeField_changed_mono: "c \<Longrightarrow> snd (mergeField na st su (h, c) f)"
  by (cases rule: mergeField_cases [where h=h and su=su and f=f and st=st])
     (simp_all add: mergeField_patch_nil mergeField_scalar_same mergeField_scalar_new
        mergeField_DeviceInfo_nil mergeField_DeviceInfo_both)

lemma foldl_mergeField_extends:
  "extends na (fst acc) (fst (foldl (mergeField na st su) acc fs))"
proof (induction fs arbitrary: acc)
  case Nil
  show ?case by (simp add: extends_refl)
next
  case (Cons f fs)
  have "extends na (fst acc) (fst (mergeField na st su acc f))"
    using mergeField_extends [of na "fst acc" st su "snd acc" f] by simp
  from extends_trans [OF this Cons.IH] show ?case by simp
qed

lemma foldl_mergeField_other_field:
  "g \<notin> set fs \<Longrightarrow>
   Field_of (states (fst (foldl (mergeField na st su) acc fs)) na) g = Field_of (states (fst acc) na) g"
proof (induction fs arbitrary: acc)
  case Nil
  show ?case by simp
next
  case (Cons f fs)
  then have "g \<noteq> f" "g \<notin> set fs" by auto
  with Cons.IH [of "mergeField na st su acc f"]
    mergeField_other_field [of g f na st su "fst acc" "snd acc"]
  show ?case by simp
qed

lemma foldl_mergeField_changed_mono:
  "snd acc \<Longrightarrow> snd (foldl (mergeField na st su) acc fs)"
proof (induction fs arbitrary: acc)
  case Nil
  then show ?case by simp
next
  case (Cons f fs)
  have "snd (mergeField na st su acc f)"
    using mergeField_changed_mono [of "snd acc" na st su "fst acc" f] Cons.prems
    by (cases acc) simp
  from Cons.IH [OF this] show ?case by simp
qed


lemma Merge_unfold:
  "Merge h st su =
     (let acc = foldl (mergeField (nxt h) st su) (fst (new_State h emptyState), False) stateFields
      in (fst acc, if snd acc then nxt h else st))"
  by (simp add: Merge_def new_State_def Let_def split: prod.split)

lemma Merge_extends: "extends (nxt h) (fst (new_State h emptyState)) (fst (Merge h st su))"
  using foldl_mergeField_extends [of "nxt h" "(fst (new_State h emptyState), False)" st su stateFields]
  by (simp add: Merge_unfold Let_def)

lemma Merge_result: "snd (Merge h st su) = st \<or> snd (Merge h st su) = nxt h"
  by (simp add: Merge_unfold Let_def)

lemma Merge_nxt: "nxt h < nxt (fst (Merge h st su))"
  using Merge_extends [of h st su] by (simp add: extends_def new_State_simps)

lemma Merge_frame:
  assumes "a < nxt h"
  shows "cells (fst (Merge h st su)) a = cells h a"
    and "dinfos (fst (Merge h st su)) a = dinfos h a"
    and "states (fst (Merge h st su)) a = states h a"
  using Merge_extends [of h st su] assms by (simp_all add: extends_def new_State_simps)

lemma stateFields_split: "stateFields = scalarFields @ [F_DeviceInfo]"
  by (simp add: scalarFields_def stateFields_def)

lemma distinct_stateFields: "distinct stateFields"
  by (simp add: stateFields_def)

lemma set_stateFields: "f \<in> set stateFields"
  by (cases f) (simp_all add: stateFields_def)

lemma extends_states: "extends na h h' \<Longrightarrow> a \<noteq> na \<Longrightarrow> states h' a = states h a"
  by (simp add: extends_def)

lemma extends_cells: "extends na h h' \<Longrightarrow> a < nxt h \<Longrightarrow> cells h' a = cells h a"
  by (simp add: extends_def)

lemma extends_dinfos: "extends na h h' \<Longrightarrow> a < nxt h \<Longrightarrow> dinfos h' a = dinfos h a"
  by (simp add: extends_def)

lemma extends_nxt: "extends na h h' \<Longrightarrow> nxt h \<le> nxt h'"
  by (simp add: extends_def)

text \<open>A field whose patch is \<open>nil\<close> keeps the receiver's pointer in \<open>newState\<close>.\<close>

lemma foldl_mergeField_absent:
  assumes "f \<in> set fs" and "distinct fs" and "st \<noteq> na" and "su \<noteq> na"
    and "Field_of (states (fst acc) su) f = None"
  shows "Field_of (states (fst (foldl (mergeField na st su) acc fs)) na) f
         = Field_of (states (fst acc) st) f"
  using assms
proof (induction fs arbitrary: acc)
  case Nil
  then show ?case by simp
next
  case (Cons g fs)
  let ?acc1 = "mergeField na st su acc g"
  have ext: "extends na (fst acc) (fst ?acc1)"
    using mergeField_extends [of na "fst acc" st su "snd acc" g] by simp
  show ?case
  proof (cases "g = f")
    case True
    with Cons.prems have "f \<notin> set fs" by simp
    then have "Field_of (states (fst (foldl (mergeField na st su) ?acc1 fs)) na) f
               = Field_of (states (fst ?acc1) na) f"
      by (rule foldl_mergeField_other_field)
    moreover have "?acc1 = (storeField (fst acc) na f (Field_of (states (fst acc) st) f), snd acc)"
      using mergeField_patch_nil [of "fst acc" su f na st "snd acc"] Cons.prems(5) True by simp
    ultimately show ?thesis by (simp add: storeField_simps Field_SetField)
  next
    case False
    with Cons.prems have "f \<in> set fs" "distinct fs" by simp_all
    moreover have "Field_of (states (fst ?acc1) su) f = None"
      using extends_states [OF ext Cons.prems(4)] Cons.prems(5) by simp
    ultimately have "Field_of (states (fst (foldl (mergeField na st su) ?acc1 fs)) na) f
               = Field_of (states (fst ?acc1) st) f"
      using Cons.IH [of ?acc1] Cons.prems(3,4) by simp
    then show ?thesis using extends_states [OF ext Cons.prems(3)] by simp
  qed
qed

text \<open>If no field of the patch is present, \<open>changed\<close> stays as it was.\<close>

lemma foldl_mergeField_empty_patch:
  assumes "su \<noteq> na" and "\<forall>f. Field_of (states (fst acc) su) f = None"
  shows "snd (foldl (mergeField na st su) acc fs) = snd acc"
  using assms
proof (induction fs arbitrary: acc)
  case Nil
  then show ?case by simp
next
  case (Cons g fs)
  let ?acc1 = "mergeField na st su acc g"
  have ext: "extends na (fst acc) (fst ?acc1)"
    using mergeField_extends [of na "fst acc" st su "snd acc" g] by simp
  have step: "?acc1 = (storeField (fst acc) na g (Field_of (states (fst acc) st) g), snd acc)"
    using mergeField_patch_nil [of "fst acc" su g na st "snd acc"] Cons.prems(2) by simp
  have "\<forall>f. Field_of (states (fst ?acc1) su) f = None"
    using extends_states [OF ext Cons.prems(1)] Cons.prems(2) by simp
  from Cons.IH [OF Cons.prems(1) this] step show ?case by simp
qed

lemma Merge_absent_keeps:
  assumes st: "st < nxt h" and su: "su < nxt h" and pat: "Field_of (states h su) f = None"
  shows "Field_of (states (fst (Merge h st su)) (snd (Merge h st su))) f = Field_of (states h st) f"
proof -
  let ?na = "nxt h"
  let ?acc = "(fst (new_State h emptyState), False)"
  let ?res = "foldl (mergeField ?na st su) ?acc stateFields"
  have M: "Merge h st su = (fst ?res, if snd ?res then ?na else st)"
    by (simp add: Merge_unfold Let_def)
  have "Field_of (states (fst ?res) ?na) f = Field_of (states (fst ?acc) st) f"
    using st su pat
    by (intro foldl_mergeField_absent set_stateFields distinct_stateFields)
       (simp_all add: new_State_simps)
  moreover have "states (fst (Merge h st su)) st = states h st"
    using st by (rule Merge_frame)
  ultimately show ?thesis using st by (simp add: M new_State_simps)
qed

lemma Merge_empty_patch:
  assumes "stateUpdate < nxt h" and "\<forall>f. Field_of (states h stateUpdate) f = None"
  shows "snd (Merge h state stateUpdate) = state"
proof -
  let ?acc = "(fst (new_State h emptyState), False)"
  have "\<forall>f. Field_of (states (fst ?acc) stateUpdate) f = None"
    using assms by (simp add: new_State_simps)
  moreover have "stateUpdate \<noteq> nxt h" using assms(1) by simp
  ultimately have "snd (foldl (mergeField (nxt h) state stateUpdate) ?acc stateFields) = snd ?acc"
    by (rule foldl_mergeField_empty_patch [rotated])
  then show ?thesis by (simp add: Merge_unfold Let_def)
qed


text \<open>Both \<open>DeviceInfo\<close> pointers non-nil: the last pass of the loop.\<close>

lemma Merge_DeviceInfo_both:
  assumes st: "st < nxt h" and su: "su < nxt h"
    and cur: "DeviceInfo (states h st) = Some ca" and pat: "DeviceInfo (states h su) = Some pa"
    and ca: "ca < nxt h" and pa: "pa < nxt h"
  shows "snd (Merge h st su) = nxt h"
    and "\<exists>m. DeviceInfo (states (fst (Merge h st su)) (nxt h)) = Some m \<and> nxt h < m
           \<and> m < nxt (fst (Merge h st su))
           \<and> dinfos (fst (Merge h st su)) m = merged (dinfos h ca) (dinfos h pa)"
proof -
  let ?na = "nxt h"
  let ?h0 = "fst (new_State h emptyState)"
  let ?acc1 = "foldl (mergeField ?na st su) (?h0, False) scalarFields"
  let ?h1 = "fst ?acc1"
  let ?d = "merged (dinfos ?h1 ca) (dinfos ?h1 pa)"
  have ext: "extends ?na ?h0 ?h1"
    using foldl_mergeField_extends [of ?na "(?h0, False)" st su scalarFields] by simp
  have n1: "Suc (nxt h) \<le> nxt ?h1"
    using extends_nxt [OF ext] by (simp add: new_State_simps)
  have s1: "states ?h1 st = states h st" "states ?h1 su = states h su"
    using extends_states [OF ext, of st] extends_states [OF ext, of su] st su
    by (simp_all add: new_State_simps)
  have d1: "dinfos ?h1 ca = dinfos h ca" "dinfos ?h1 pa = dinfos h pa"
    using extends_dinfos [OF ext, of ca] extends_dinfos [OF ext, of pa] ca pa
    by (simp_all add: new_State_simps)
  have "mergeField ?na st su (?h1, snd ?acc1) F_DeviceInfo =
          (storeField (fst (new_DeviceInfo ?h1 ?d)) ?na F_DeviceInfo (Some (nxt ?h1)),
           if nxt ?h1 \<noteq> ca then True else snd ?acc1)"
    by (rule mergeField_DeviceInfo_both) (simp_all add: s1 cur pat)
  moreover have "nxt ?h1 \<noteq> ca" using n1 ca by simp
  ultimately have last: "mergeField ?na st su ?acc1 F_DeviceInfo =
          (storeField (fst (new_DeviceInfo ?h1 ?d)) ?na F_DeviceInfo (Some (nxt ?h1)), True)"
    by simp
  have M: "Merge h st su = (storeField (fst (new_DeviceInfo ?h1 ?d)) ?na F_DeviceInfo (Some (nxt ?h1)), ?na)"
    by (simp add: Merge_unfold stateFields_split last Let_def)
  show "snd (Merge h st su) = nxt h" by (simp add: M)
  have "DeviceInfo (states (fst (Merge h st su)) ?na) = Some (nxt ?h1)"
    by (simp add: M storeField_simps)
  moreover have "dinfos (fst (Merge h st su)) (nxt ?h1) = merged (dinfos h ca) (dinfos h pa)"
    by (simp add: M storeField_simps new_DeviceInfo_simps d1)
  moreover have "nxt ?h1 < nxt (fst (Merge h st su))"
    by (simp add: M storeField_simps new_DeviceInfo_simps)
  ultimately show "\<exists>m. DeviceInfo (states (fst (Merge h st su)) (nxt h)) = Some m \<and> nxt h < m
           \<and> m < nxt (fst (Merge h st su))
           \<and> dinfos (fst (Merge h st su)) m = merged (dinfos h ca) (dinfos h pa)"
    using n1 by auto
qed


text \<open>A scalar field whose patch is present: one pass, then the whole loop.\<close>

lemma mergeField_present_step:
  assumes "f \<noteq> F_DeviceInfo" and "Field_of (states h su) f = Some pa" and "pa < nxt h"
    and "\<forall>ca. Field_of (states h st) f = Some ca \<longrightarrow> ca < nxt h"
  shows "\<exists>a. Field_of (states (fst (mergeField na st su (h, c) f)) na) f = Some a
            \<and> a < nxt (fst (mergeField na st su (h, c) f))
            \<and> cells (fst (mergeField na st su (h, c) f)) a = cells h pa"
proof (cases "case Field_of (states h st) f of None \<Rightarrow> True | Some ca \<Rightarrow> cells h ca \<noteq> cells h pa")
  case True
  with assms have "mergeField na st su (h, c) f =
     (storeField (fst (new_cell h (cells h pa))) na f (Some (nxt h)), True)"
    by (simp add: mergeField_scalar_new)
  then show ?thesis by (simp add: storeField_simps Field_SetField new_cell_simps)
next
  case False
  then obtain ca where ca: "Field_of (states h st) f = Some ca" "cells h ca = cells h pa"
    by (auto split: option.splits)
  with assms have "mergeField na st su (h, c) f = (storeField h na f (Some ca), c)"
    by (simp add: mergeField_scalar_same)
  with ca assms(4) show ?thesis by (simp add: storeField_simps Field_SetField)
qed

lemma mergeField_unchanged_step:
  assumes "f \<noteq> F_DeviceInfo" and "Field_of (states h su) f = Some pa"
    and "\<not> snd (mergeField na st su (h, c) f)"
  shows "\<exists>ca. Field_of (states h st) f = Some ca \<and> cells h ca = cells h pa"
proof (cases "case Field_of (states h st) f of None \<Rightarrow> True | Some ca \<Rightarrow> cells h ca \<noteq> cells h pa")
  case True
  with assms(1,2) have "mergeField na st su (h, c) f =
     (storeField (fst (new_cell h (cells h pa))) na f (Some (nxt h)), True)"
    by (simp add: mergeField_scalar_new)
  with assms(3) show ?thesis by simp
next
  case False
  then show ?thesis by (auto split: option.splits)
qed

lemma foldl_mergeField_present:
  assumes "f \<in> set fs" and "distinct fs" and "f \<noteq> F_DeviceInfo" and "st \<noteq> na" and "su \<noteq> na"
    and "Field_of (states (fst acc) su) f = Some pa" and "pa < nxt (fst acc)"
    and "\<forall>ca. Field_of (states (fst acc) st) f = Some ca \<longrightarrow> ca < nxt (fst acc)"
  shows "\<exists>a. Field_of (states (fst (foldl (mergeField na st su) acc fs)) na) f = Some a
            \<and> a < nxt (fst (foldl (mergeField na st su) acc fs))
            \<and> cells (fst (foldl (mergeField na st su) acc fs)) a = cells (fst acc) pa"
  using assms
proof (induction fs arbitrary: acc)
  case Nil
  then show ?case by simp
next
  case (Cons g fs)
  let ?acc1 = "mergeField na st su acc g"
  let ?res = "foldl (mergeField na st su) ?acc1 fs"
  have ext: "extends na (fst acc) (fst ?acc1)"
    using mergeField_extends [of na "fst acc" st su "snd acc" g] by simp
  have ext': "extends na (fst ?acc1) (fst ?res)"
    by (rule foldl_mergeField_extends)
  show ?case
  proof (cases "g = f")
    case True
    with Cons.prems have notin: "f \<notin> set fs" by simp
    obtain a where a: "Field_of (states (fst ?acc1) na) f = Some a" "a < nxt (fst ?acc1)"
        "cells (fst ?acc1) a = cells (fst acc) pa"
      using mergeField_present_step [of f "fst acc" su pa st na "snd acc"] Cons.prems True
      by auto
    have "Field_of (states (fst ?res) na) f = Some a"
      using foldl_mergeField_other_field [OF notin, of na st su ?acc1] a(1) by simp
    moreover have "cells (fst ?res) a = cells (fst acc) pa"
      using extends_cells [OF ext' a(2)] a(3) by simp
    moreover have "a < nxt (fst ?res)"
      using extends_nxt [OF ext'] a(2) by simp
    ultimately show ?thesis by simp
  next
    case False
    with Cons.prems have "f \<in> set fs" "distinct fs" by simp_all
    moreover have "Field_of (states (fst ?acc1) su) f = Some pa"
      using extends_states [OF ext Cons.prems(5)] Cons.prems(6) by simp
    moreover have "pa < nxt (fst ?acc1)"
      using extends_nxt [OF ext] Cons.prems(7) by simp
    moreover have "\<forall>ca. Field_of (states (fst ?acc1) st) f = Some ca \<longrightarrow> ca < nxt (fst ?acc1)"
      using extends_states [OF ext Cons.prems(4)] extends_nxt [OF ext] Cons.prems(8) by auto
    ultimately have "\<exists>a. Field_of (states (fst ?res) na) f = Some a \<and> a < nxt (fst ?res)
            \<and> cells (fst ?res) a = cells (fst ?acc1) pa"
      using Cons.IH [of ?acc1] Cons.prems(3,4,5) by blast
    then show ?thesis using extends_cells [OF ext Cons.prems(7)] by simp
  qed
qed

lemma foldl_mergeField_unchanged:
  assumes "f \<in> set fs" and "f \<noteq> F_DeviceInfo" and "st \<noteq> na" and "su \<noteq> na"
    and "Field_of (states (fst acc) su) f = Some pa" and "pa < nxt (fst acc)"
    and "\<forall>ca. Field_of (states (fst acc) st) f = Some ca \<longrightarrow> ca < nxt (fst acc)"
    and "\<not> snd (foldl (mergeField na st su) acc fs)"
  shows "\<exists>ca. Field_of (states (fst acc) st) f = Some ca \<and> cells (fst acc) ca = cells (fst acc) pa"
  using assms
proof (induction fs arbitrary: acc)
  case Nil
  then show ?case by simp
next
  case (Cons g fs)
  let ?acc1 = "mergeField na st su acc g"
  have ext: "extends na (fst acc) (fst ?acc1)"
    using mergeField_extends [of na "fst acc" st su "snd acc" g] by simp
  have unch1: "\<not> snd ?acc1"
    using foldl_mergeField_changed_mono [of ?acc1 na st su fs] Cons.prems(8) by auto
  show ?case
  proof (cases "g = f")
    case True
    then show ?thesis
      using mergeField_unchanged_step [of f "fst acc" su pa na st "snd acc"] Cons.prems(2,5) unch1
      by simp
  next
    case False
    with Cons.prems have "f \<in> set fs" by simp
    moreover have su1: "Field_of (states (fst ?acc1) su) f = Some pa"
      using extends_states [OF ext Cons.prems(4)] Cons.prems(5) by simp
    moreover have "pa < nxt (fst ?acc1)"
      using extends_nxt [OF ext] Cons.prems(6) by simp
    moreover have "\<forall>ca. Field_of (states (fst ?acc1) st) f = Some ca \<longrightarrow> ca < nxt (fst ?acc1)"
      using extends_states [OF ext Cons.prems(3)] extends_nxt [OF ext] Cons.prems(7) by auto
    moreover have "\<not> snd (foldl (mergeField na st su) ?acc1 fs)"
      using Cons.prems(8) by simp
    ultimately obtain ca where ca: "Field_of (states (fst ?acc1) st) f = Some ca"
        "cells (fst ?acc1) ca = cells (fst ?acc1) pa"
      using Cons.IH [of ?acc1] Cons.prems(2,3,4) by blast
    have "Field_of (states (fst acc) st) f = Some ca"
      using ca(1) extends_states [OF ext Cons.prems(3)] by simp
    moreover from this have "ca < nxt (fst acc)" using Cons.prems(7) by simp
    then have "cells (fst acc) ca = cells (fst acc) pa"
      using ca(2) extends_cells [OF ext, of ca] extends_cells [OF ext Cons.prems(6)] by simp
    ultimately show ?thesis by simp
  qed
qed

lemma Merge_present_scalar:
  assumes f: "f \<noteq> F_DeviceInfo" and st: "st < nxt h" and su: "su < nxt h"
    and pat: "Field_of (states h su) f = Some pa" and pa: "pa < nxt h"
    and cur: "\<forall>ca. Field_of (states h st) f = Some ca \<longrightarrow> ca < nxt h"
  shows "\<exists>a. Field_of (states (fst (Merge h st su)) (snd (Merge h st su))) f = Some a
            \<and> cells (fst (Merge h st su)) a = cells h pa"
proof -
  let ?na = "nxt h"
  let ?acc = "(fst (new_State h emptyState), False)"
  let ?res = "foldl (mergeField ?na st su) ?acc stateFields"
  have M: "Merge h st su = (fst ?res, if snd ?res then ?na else st)"
    by (simp add: Merge_unfold Let_def)
  have pre: "st \<noteq> ?na" "su \<noteq> ?na" "Field_of (states (fst ?acc) su) f = Some pa"
      "pa < nxt (fst ?acc)" "\<forall>ca. Field_of (states (fst ?acc) st) f = Some ca \<longrightarrow> ca < nxt (fst ?acc)"
    using st su pat pa cur by (auto simp: new_State_simps)
  show ?thesis
  proof (cases "snd ?res")
    case True
    obtain a where "Field_of (states (fst ?res) ?na) f = Some a" "cells (fst ?res) a = cells (fst ?acc) pa"
      using foldl_mergeField_present [OF set_stateFields distinct_stateFields f pre] by blast
    with True show ?thesis by (simp add: M new_State_simps)
  next
    case False
    obtain ca where ca: "Field_of (states (fst ?acc) st) f = Some ca"
        "cells (fst ?acc) ca = cells (fst ?acc) pa"
      using foldl_mergeField_unchanged [OF set_stateFields f pre False] by blast
    then have ca': "Field_of (states h st) f = Some ca" "cells h ca = cells h pa"
      using st by (simp_all add: new_State_simps)
    then have "ca < nxt h" using cur by simp
    then have "cells (fst (Merge h st su)) ca = cells h ca"
      by (rule Merge_frame)
    moreover have "states (fst (Merge h st su)) st = states h st"
      using st by (rule Merge_frame)
    ultimately show ?thesis using False ca' by (simp add: M)
  qed
qed

subsection \<open>The claims about \<open>Merge\<close>\<close>

lemma merged_LastUpdated: "LastUpdated (merged c p) = LastUpdated c"
  by (simp add: merged_def)

lemma merged_Volume: "Volume (merged c p) = (if Volume p \<noteq> None then Volume p else Volume c)"
  by (simp add: merged_def)

lemma lastUpdatedHeap_simps:
  "nxt lastUpdatedHeap = 6"
  "cells lastUpdatedHeap 0 = VInt64 100"
  "cells lastUpdatedHeap (Suc 0) = VInt64 200"
  "dinfos lastUpdatedHeap 2 = emptyDeviceInfo\<lparr>LastUpdated := Some 0\<rparr>"
  "dinfos lastUpdatedHeap 3 = emptyDeviceInfo\<lparr>LastUpdated := Some 1\<rparr>"
  "states lastUpdatedHeap 4 = emptyState\<lparr>DeviceInfo := Some 2\<rparr>"
  "states lastUpdatedHeap 5 = emptyState\<lparr>DeviceInfo := Some 3\<rparr>"
  by (simp_all add: lastUpdatedHeap_def emptyHeap_def)

lemma sameVolumeHeap_simps:
  "nxt sameVolumeHeap = 6"
  "cells sameVolumeHeap 0 = VInt32 5"
  "cells sameVolumeHeap (Suc 0) = VInt32 5"
  "dinfos sameVolumeHeap 2 = emptyDeviceInfo\<lparr>Volume := Some 0\<rparr>"
  "dinfos sameVolumeHeap 3 = emptyDeviceInfo\<lparr>Volume := Some 1\<rparr>"
  "states sameVolumeHeap 4 = emptyState\<lparr>DeviceInfo := Some 2\<rparr>"
  "states sameVolumeHeap 5 = emptyState\<lparr>DeviceInfo := Some 3\<rparr>"
  by (simp_all add: sameVolumeHeap_def emptyHeap_def)

text \<open>
  Claim C1 says that every field of the merged record, and every field of its
  \<open>DeviceInfo\<close> sub-record, holds the patch's value when the patch has one. The run
  of \<open>Merge\<close> on \<open>lastUpdatedHeap\<close> shows the field the code does not merge: the
  patch's \<open>DeviceInfo.LastUpdated\<close> is 200, and the merged record still holds the
  receiver's 100.
\<close>

theorem Merge_LastUpdated_not_merged:
  "map_option (cells lastUpdatedHeap) (LastUpdated (dinfos lastUpdatedHeap 3)) = Some (VInt64 200)
   \<and> (\<exists>m. DeviceInfo (states (fst (Merge lastUpdatedHeap 4 5)) (snd (Merge lastUpdatedHeap 4 5))) = Some m
          \<and> map_option (cells (fst (Merge lastUpdatedHeap 4 5)))
               (LastUpdated (dinfos (fst (Merge lastUpdatedHeap 4 5)) m)) = Some (VInt64 100))"
proof -
  let ?h = lastUpdatedHeap
  have r: "snd (Merge ?h 4 5) = 6"
    using Merge_DeviceInfo_both(1) [of 4 ?h 5 2 3] by (simp add: lastUpdatedHeap_simps)
  obtain m where m: "DeviceInfo (states (fst (Merge ?h 4 5)) 6) = Some m"
      "dinfos (fst (Merge ?h 4 5)) m = merged (dinfos ?h 2) (dinfos ?h 3)"
    using Merge_DeviceInfo_both(2) [of 4 ?h 5 2 3] by (auto simp: lastUpdatedHeap_simps)
  have "LastUpdated (dinfos (fst (Merge ?h 4 5)) m) = Some 0"
    by (simp add: m(2) merged_LastUpdated lastUpdatedHeap_simps)
  moreover have "cells (fst (Merge ?h 4 5)) 0 = VInt64 100"
    using Merge_frame(1) [of 0 ?h 4 5] by (simp add: lastUpdatedHeap_simps)
  ultimately show ?thesis using r m(1) by (simp add: lastUpdatedHeap_simps)
qed

text \<open>
  Claim C2 says that a patch which changes no value gets the prior record back. On
  \<open>sameVolumeHeap\<close> the only present field of the patch is the volume of its
  \<open>DeviceInfo\<close>, 5 as in the receiver, and \<open>Merge\<close> returns a new record, not the
  receiver at address 4.
\<close>

theorem Merge_same_DeviceInfo_returns_new:
  "map_option (cells sameVolumeHeap) (Volume (dinfos sameVolumeHeap 2))
     = map_option (cells sameVolumeHeap) (Volume (dinfos sameVolumeHeap 3))
   \<and> snd (Merge sameVolumeHeap 4 5) \<noteq> 4"
  using Merge_DeviceInfo_both(1) [of 4 sameVolumeHeap 5 2 3]
  by (simp add: sameVolumeHeap_simps)

text \<open>
  Claim C9: \<open>Merge\<close> is copy-on-write. For a receiver and a patch that exist in the
  store, the call leaves both records, and every cell and object that existed before
  the call, as they were; it returns either the receiver itself or a record at an
  address that was not in use before the call; and whenever the returned record differs
  from the receiver's, it is such a new record.
\<close>

theorem Merge_copy_on_write:
  assumes "state < nxt h" and "stateUpdate < nxt h"
  shows "states (fst (Merge h state stateUpdate)) state = states h state
       \<and> states (fst (Merge h state stateUpdate)) stateUpdate = states h stateUpdate
       \<and> (\<forall>a<nxt h. cells (fst (Merge h state stateUpdate)) a = cells h a
                    \<and> dinfos (fst (Merge h state stateUpdate)) a = dinfos h a
                    \<and> states (fst (Merge h state stateUpdate)) a = states h a)
       \<and> (snd (Merge h state stateUpdate) = state
            \<or> nxt h \<le> snd (Merge h state stateUpdate)
              \<and> snd (Merge h state stateUpdate) < nxt (fst (Merge h state stateUpdate)))
       \<and> (states (fst (Merge h state stateUpdate)) (snd (Merge h state stateUpdate)) \<noteq> states h state
            \<longrightarrow> nxt h \<le> snd (Merge h state stateUpdate)
              \<and> snd (Merge h state stateUpdate) < nxt (fst (Merge h state stateUpdate)))"
proof -
  let ?h' = "fst (Merge h state stateUpdate)" and ?r = "snd (Merge h state stateUpdate)"
  have frame: "\<forall>a<nxt h. cells ?h' a = cells h a \<and> dinfos ?h' a = dinfos h a \<and> states ?h' a = states h a"
    by (simp add: Merge_frame)
  have res: "?r = state \<or> nxt h \<le> ?r \<and> ?r < nxt ?h'"
    using Merge_result [of h state stateUpdate] Merge_nxt [of h state stateUpdate] by auto
  have "states ?h' ?r \<noteq> states h state \<longrightarrow> nxt h \<le> ?r \<and> ?r < nxt ?h'"
    using res frame assms(1) by auto
  with frame res assms show ?thesis by simp
qed

theorem Merge_copy_on_write_witness:
  "(4::nat) < nxt lastUpdatedHeap \<and> (5::nat) < nxt lastUpdatedHeap
   \<and> states (fst (Merge lastUpdatedHeap 4 5)) 4 = emptyState\<lparr>DeviceInfo := Some 2\<rparr>
   \<and> states (fst (Merge lastUpdatedHeap 4 5)) 5 = emptyState\<lparr>DeviceInfo := Some 3\<rparr>
   \<and> cells (fst (Merge lastUpdatedHeap 4 5)) 0 = VInt64 100
   \<and> states (fst (Merge lastUpdatedHeap 4 5)) (snd (Merge lastUpdatedHeap 4 5)) \<noteq> states lastUpdatedHeap 4
   \<and> nxt lastUpdatedHeap \<le> snd (Merge lastUpdatedHeap 4 5)"
proof -
  let ?h = lastUpdatedHeap
  have b: "(4::nat) < nxt ?h" "(5::nat) < nxt ?h" by (simp_all add: lastUpdatedHeap_simps)
  note cow = Merge_copy_on_write [OF b]
  have r: "snd (Merge ?h 4 5) = 6"
    using Merge_DeviceInfo_both(1) [of 4 ?h 5 2 3] by (simp add: lastUpdatedHeap_simps)
  obtain m where m: "DeviceInfo (states (fst (Merge ?h 4 5)) 6) = Some m" "6 < m"
    using Merge_DeviceInfo_both(2) [of 4 ?h 5 2 3] by (auto simp: lastUpdatedHeap_simps)
  have differs: "states (fst (Merge ?h 4 5)) (snd (Merge ?h 4 5)) \<noteq> states ?h 4"
  proof
    assume "states (fst (Merge ?h 4 5)) (snd (Merge ?h 4 5)) = states ?h 4"
    then have "DeviceInfo (states (fst (Merge ?h 4 5)) 6) = DeviceInfo (states ?h 4)"
      by (simp add: r)
    with m show False by (simp add: lastUpdatedHeap_simps)
  qed
  from cow have "cells (fst (Merge ?h 4 5)) 0 = cells ?h 0"
    by (simp add: lastUpdatedHeap_simps)
  with cow differs b show ?thesis by (simp add: lastUpdatedHeap_simps)
qed

section \<open>Proofs: the state store and the RTMP server\<close>

lemma Field_of_emptyState: "Field_of emptyState f = None"
  by (cases f) (simp_all add: emptyState_def)

lemma Update_unfold:
  "Update h m uid su =
     (let h1c = (case babiesByUID m uid of Some a \<Rightarrow> (h, a) | None \<Rightarrow> NewState h);
          res = Merge (fst h1c) (snd h1c) su
      in if snd res = snd h1c then (fst res, m, False)
         else (fst res, m\<lparr>babiesByUID := (babiesByUID m)(uid \<mapsto> snd res),
                          notified := notified m @ [(uid, su)]\<rparr>, True))"
  by (simp add: Update_def Let_def split: prod.split option.split)

lemma Update_present_scalar:
  assumes f: "f \<noteq> F_DeviceInfo" and su: "su < nxt h"
    and pat: "Field_of (states h su) f = Some pa" and pa: "pa < nxt h"
    and wf: "\<forall>a. babiesByUID m uid = Some a \<longrightarrow>
               a < nxt h \<and> (\<forall>ca. Field_of (states h a) f = Some ca \<longrightarrow> ca < nxt h)"
  shows "\<exists>a. Field_of (GetBabyState (fst (Update h m uid su)) (fst (snd (Update h m uid su))) uid) f = Some a
            \<and> cells (fst (Update h m uid su)) a = cells h pa"
proof (cases "babiesByUID m uid")
  case (Some cur)
  with wf have cur: "cur < nxt h" "\<forall>ca. Field_of (states h cur) f = Some ca \<longrightarrow> ca < nxt h"
    by auto
  obtain a where a: "Field_of (states (fst (Merge h cur su)) (snd (Merge h cur su))) f = Some a"
      "cells (fst (Merge h cur su)) a = cells h pa"
    using Merge_present_scalar [OF f cur(1) su pat pa cur(2)] by blast
  show ?thesis
  proof (cases "snd (Merge h cur su) = cur")
    case True
    with Some a show ?thesis by (simp add: Update_unfold GetBabyState_def Let_def)
  next
    case False
    with Some a show ?thesis by (simp add: Update_unfold GetBabyState_def Let_def)
  qed
next
  case None
  let ?h1 = "fst (NewState h)" and ?cur = "nxt h"
  have h1: "nxt ?h1 = Suc (nxt h)" "states ?h1 ?cur = emptyState" "states ?h1 su = states h su"
      "cells ?h1 = cells h" "snd (NewState h) = nxt h"
    using su by (simp_all add: NewState_def new_State_simps)
  have pre: "?cur < nxt ?h1" "su < nxt ?h1" "Field_of (states ?h1 su) f = Some pa" "pa < nxt ?h1"
      "\<forall>ca. Field_of (states ?h1 ?cur) f = Some ca \<longrightarrow> ca < nxt ?h1"
    using su pat pa by (simp_all add: h1 Field_of_emptyState)
  obtain a where a: "Field_of (states (fst (Merge ?h1 ?cur su)) (snd (Merge ?h1 ?cur su))) f = Some a"
      "cells (fst (Merge ?h1 ?cur su)) a = cells ?h1 pa"
    using Merge_present_scalar [OF f pre] by blast
  have ne: "snd (Merge ?h1 ?cur su) \<noteq> ?cur"
  proof
    assume eq: "snd (Merge ?h1 ?cur su) = ?cur"
    have "states (fst (Merge ?h1 ?cur su)) ?cur = states ?h1 ?cur"
      using pre(1) by (rule Merge_frame)
    with a(1) eq show False by (simp add: h1 Field_of_emptyState)
  qed
  with None a show ?thesis by (simp add: Update_unfold GetBabyState_def Let_def h1)
qed


text \<open>A field the update does not set keeps the pointer of the stored record.\<close>

lemma Update_absent_keeps:
  assumes su: "su < nxt h" and pat: "Field_of (states h su) f = None"
    and wf: "\<forall>a. babiesByUID m uid = Some a \<longrightarrow> a < nxt h"
  shows "Field_of (GetBabyState (fst (Update h m uid su)) (fst (snd (Update h m uid su))) uid) f
         = Field_of (GetBabyState h m uid) f"
proof (cases "babiesByUID m uid")
  case (Some cur)
  with wf have cur: "cur < nxt h" by simp
  have keep: "Field_of (states (fst (Merge h cur su)) (snd (Merge h cur su))) f = Field_of (states h cur) f"
    using cur su pat by (rule Merge_absent_keeps)
  show ?thesis
  proof (cases "snd (Merge h cur su) = cur")
    case True
    with Some keep show ?thesis by (simp add: Update_unfold GetBabyState_def Let_def)
  next
    case False
    with Some keep show ?thesis by (simp add: Update_unfold GetBabyState_def Let_def)
  qed
next
  case None
  let ?h1 = "fst (NewState h)" and ?cur = "nxt h"
  have h1: "nxt ?h1 = Suc (nxt h)" "states ?h1 ?cur = emptyState" "states ?h1 su = states h su"
      "snd (NewState h) = nxt h"
    using su by (simp_all add: NewState_def new_State_simps)
  have keep: "Field_of (states (fst (Merge ?h1 ?cur su)) (snd (Merge ?h1 ?cur su))) f
              = Field_of (states ?h1 ?cur) f"
    using su pat by (intro Merge_absent_keeps) (simp_all add: h1)
  have same: "states (fst (Merge ?h1 ?cur su)) ?cur = states ?h1 ?cur"
    by (rule Merge_frame) (simp add: h1)
  show ?thesis
  proof (cases "snd (Merge ?h1 ?cur su) = ?cur")
    case True
    with None show ?thesis
      by (simp add: Update_unfold GetBabyState_def Let_def h1)
  next
    case False
    with None keep show ?thesis
      by (simp add: Update_unfold GetBabyState_def Let_def h1 Field_of_emptyState)
  qed
qed

text \<open>\<open>Update\<close> leaves what was in the store, and the records of the other devices.\<close>

lemma Update_frame:
  assumes "a < nxt h"
  shows "cells (fst (Update h m uid su)) a = cells h a"
    and "dinfos (fst (Update h m uid su)) a = dinfos h a"
    and "states (fst (Update h m uid su)) a = states h a"
proof -
  have n: "a < nxt (fst (NewState h))"
    and c: "cells (fst (NewState h)) a = cells h a" "dinfos (fst (NewState h)) a = dinfos h a"
      "states (fst (NewState h)) a = states h a"
    using assms by (simp_all add: NewState_def new_State_simps)
  show "cells (fst (Update h m uid su)) a = cells h a"
    using Merge_frame(1) [OF assms] Merge_frame(1) [OF n] c
    by (simp add: Update_unfold Let_def split: option.split)
  show "dinfos (fst (Update h m uid su)) a = dinfos h a"
    using Merge_frame(2) [OF assms] Merge_frame(2) [OF n] c
    by (simp add: Update_unfold Let_def split: option.split)
  show "states (fst (Update h m uid su)) a = states h a"
    using Merge_frame(3) [OF assms] Merge_frame(3) [OF n] c
    by (simp add: Update_unfold Let_def split: option.split)
qed

lemma Update_other_uid:
  "u \<noteq> uid \<Longrightarrow> babiesByUID (fst (snd (Update h m uid su))) u = babiesByUID m u"
  by (simp add: Update_unfold Let_def)

lemma closePublisher_simps:
  "mem (closePublisher s uid b) = mem s"
  "babyStateManager (closePublisher s uid b) = babyStateManager s"
  "subscribersOf (closePublisher s uid b) = subscribersOf s"
  "closedConns (closePublisher s uid b) = closedConns s"
  "broadcastersByUID (closePublisher s uid b) u =
     (if u = uid \<and> broadcastersByUID s uid = Some b then None else broadcastersByUID s u)"
  "pktC_closed (closePublisher s uid b) sub = (sub \<in> set (subscribersOf s b) \<or> pktC_closed s sub)"
  by (auto simp: closePublisher_def closeSubscribers_def Let_def split: option.split)

lemma unhealthyPatch_simps:
  "nxt (unhealthyPatch h) = Suc (Suc (Suc (nxt h)))"
  "states (unhealthyPatch h) (nxt h) =
     emptyState\<lparr>StreamState := Some (Suc (nxt h)), LastVideoPacketTime := Some (Suc (Suc (nxt h)))\<rparr>"
  "cells (unhealthyPatch h) (Suc (nxt h)) = VStreamState StreamState_Unhealthy"
  "cells (unhealthyPatch h) (Suc (Suc (nxt h))) = VInt64 0"
  "a < nxt h \<Longrightarrow> states (unhealthyPatch h) a = states h a"
  "a < nxt h \<Longrightarrow> cells (unhealthyPatch h) a = cells h a"
  "dinfos (unhealthyPatch h) = dinfos h"
  by (simp_all add: unhealthyPatch_def NewState_def SetStreamState_def SetLastVideoPacketTime_def
      new_State_def new_cell_def storeField_def)

lemma handleConnection_readError_unfold:
  "handleConnection_readError s uid b =
     closePublisher
       (s\<lparr>mem := fst (Update (unhealthyPatch (mem s)) (babyStateManager s) uid (nxt (mem s))),
          babyStateManager := fst (snd (Update (unhealthyPatch (mem s)) (babyStateManager s) uid (nxt (mem s))))\<rparr>)
       uid b"
  by (simp add: handleConnection_readError_def unhealthyPatch_def NewState_def SetStreamState_def
      SetLastVideoPacketTime_def new_State_def new_cell_def Let_def split: prod.split)

text \<open>
  Claim C6: when the publisher's \<open>ReadPacket\<close> fails, the state of the device is
  merged with liveness \<open>Unhealthy\<close> and last video packet time 0: these two fields
  take the new values, every other field of the device's record keeps its pointer,
  what was in the store stays as it was, and the records of the other devices stay in
  place. The registry entry of the UID is removed if it still points to this publisher
  (and kept otherwise), the entries of other UIDs are kept, and the queue of every
  subscriber of this publisher is closed, and of no other subscriber. The hypothesis
  says that the stored record of the device, if there is one, and its two pointers
  exist in the store.
\<close>

theorem publisher_read_error:
  assumes wf: "\<forall>a. babiesByUID (babyStateManager s) uid = Some a \<longrightarrow>
      a < nxt (mem s)
      \<and> (\<forall>ca. StreamState (states (mem s) a) = Some ca \<longrightarrow> ca < nxt (mem s))
      \<and> (\<forall>ca. LastVideoPacketTime (states (mem s) a) = Some ca \<longrightarrow> ca < nxt (mem s))"
  shows "GetStreamState (mem (handleConnection_readError s uid publisher))
           (GetBabyState (mem (handleConnection_readError s uid publisher))
              (babyStateManager (handleConnection_readError s uid publisher)) uid) = StreamState_Unhealthy
       \<and> GetLastVideoPacketTime (mem (handleConnection_readError s uid publisher))
           (GetBabyState (mem (handleConnection_readError s uid publisher))
              (babyStateManager (handleConnection_readError s uid publisher)) uid) = Some (VInt64 0)
       \<and> (\<forall>f. f \<noteq> F_StreamState \<and> f \<noteq> F_LastVideoPacketTime \<longrightarrow>
             Field_of (GetBabyState (mem (handleConnection_readError s uid publisher))
                        (babyStateManager (handleConnection_readError s uid publisher)) uid) f
             = Field_of (GetBabyState (mem s) (babyStateManager s) uid) f)
       \<and> (\<forall>a<nxt (mem s).
             cells (mem (handleConnection_readError s uid publisher)) a = cells (mem s) a
             \<and> dinfos (mem (handleConnection_readError s uid publisher)) a = dinfos (mem s) a
             \<and> states (mem (handleConnection_readError s uid publisher)) a = states (mem s) a)
       \<and> (\<forall>u. u \<noteq> uid \<longrightarrow>
             babiesByUID (babyStateManager (handleConnection_readError s uid publisher)) u
             = babiesByUID (babyStateManager s) u)
       \<and> broadcastersByUID (handleConnection_readError s uid publisher) uid
           = (if broadcastersByUID s uid = Some publisher then None else broadcastersByUID s uid)
       \<and> (\<forall>u. u \<noteq> uid \<longrightarrow>
             broadcastersByUID (handleConnection_readError s uid publisher) u = broadcastersByUID s u)
       \<and> (\<forall>sub\<in>set (subscribersOf s publisher). pktC_closed (handleConnection_readError s uid publisher) sub)
       \<and> (\<forall>sub. sub \<notin> set (subscribersOf s publisher) \<longrightarrow>
             pktC_closed (handleConnection_readError s uid publisher) sub = pktC_closed s sub)
       \<and> subscribersOf (handleConnection_readError s uid publisher) = subscribersOf s"
proof -
  let ?h = "mem s" and ?m = "babyStateManager s"
  let ?h3 = "unhealthyPatch ?h"
  let ?u = "Update ?h3 ?m uid (nxt ?h)"
  let ?s' = "handleConnection_readError s uid publisher"
  have mem': "mem ?s' = fst ?u" and man': "babyStateManager ?s' = fst (snd ?u)"
    by (simp_all add: handleConnection_readError_unfold closePublisher_simps)
  have su: "nxt ?h < nxt ?h3" by (simp add: unhealthyPatch_simps)
  have wf0: "\<forall>a. babiesByUID ?m uid = Some a \<longrightarrow> a < nxt ?h3"
    using wf by (auto simp: unhealthyPatch_simps)
  have wf1: "\<forall>a. babiesByUID ?m uid = Some a \<longrightarrow>
               a < nxt ?h3 \<and> (\<forall>ca. Field_of (states ?h3 a) F_StreamState = Some ca \<longrightarrow> ca < nxt ?h3)"
    using wf by (auto simp: unhealthyPatch_simps)
  have wf2: "\<forall>a. babiesByUID ?m uid = Some a \<longrightarrow>
               a < nxt ?h3 \<and> (\<forall>ca. Field_of (states ?h3 a) F_LastVideoPacketTime = Some ca \<longrightarrow> ca < nxt ?h3)"
    using wf by (auto simp: unhealthyPatch_simps)
  obtain a1 where a1: "Field_of (GetBabyState (fst ?u) (fst (snd ?u)) uid) F_StreamState = Some a1"
      "cells (fst ?u) a1 = cells ?h3 (Suc (nxt ?h))"
    using Update_present_scalar [of F_StreamState "nxt ?h" ?h3 "Suc (nxt ?h)" ?m uid, OF _ su _ _ wf1]
    by (auto simp: unhealthyPatch_simps)
  obtain a2 where a2: "Field_of (GetBabyState (fst ?u) (fst (snd ?u)) uid) F_LastVideoPacketTime = Some a2"
      "cells (fst ?u) a2 = cells ?h3 (Suc (Suc (nxt ?h)))"
    using Update_present_scalar [of F_LastVideoPacketTime "nxt ?h" ?h3 "Suc (Suc (nxt ?h))" ?m uid, OF _ su _ _ wf2]
    by (auto simp: unhealthyPatch_simps)
  have c1: "GetStreamState (mem ?s') (GetBabyState (mem ?s') (babyStateManager ?s') uid) = StreamState_Unhealthy"
    using a1 by (simp add: mem' man' GetStreamState_def unhealthyPatch_simps)
  have c2: "GetLastVideoPacketTime (mem ?s') (GetBabyState (mem ?s') (babyStateManager ?s') uid) = Some (VInt64 0)"
    using a2 by (simp add: mem' man' GetLastVideoPacketTime_def unhealthyPatch_simps)
  have before: "GetBabyState ?h3 ?m uid = GetBabyState ?h ?m uid"
    using wf by (auto simp: GetBabyState_def unhealthyPatch_simps split: option.split)
  have c3: "\<forall>f. f \<noteq> F_StreamState \<and> f \<noteq> F_LastVideoPacketTime \<longrightarrow>
             Field_of (GetBabyState (mem ?s') (babyStateManager ?s') uid) f
             = Field_of (GetBabyState ?h ?m uid) f"
  proof (intro allI impI)
    fix f assume f: "f \<noteq> F_StreamState \<and> f \<noteq> F_LastVideoPacketTime"
    then have "Field_of (states ?h3 (nxt ?h)) f = None"
      by (cases f) (simp_all add: unhealthyPatch_simps emptyState_def)
    from Update_absent_keeps [OF su this wf0] before
    show "Field_of (GetBabyState (mem ?s') (babyStateManager ?s') uid) f
             = Field_of (GetBabyState ?h ?m uid) f"
      by (simp add: mem' man')
  qed
  have c4: "\<forall>a<nxt ?h. cells (mem ?s') a = cells ?h a \<and> dinfos (mem ?s') a = dinfos ?h a
              \<and> states (mem ?s') a = states ?h a"
  proof (intro allI impI)
    fix a assume a: "a < nxt ?h"
    then have "a < nxt ?h3" using su by simp
    from Update_frame [OF this, of ?m uid "nxt ?h"] a
    show "cells (mem ?s') a = cells ?h a \<and> dinfos (mem ?s') a = dinfos ?h a
              \<and> states (mem ?s') a = states ?h a"
      by (simp add: mem' unhealthyPatch_simps)
  qed
  have c5: "\<forall>u. u \<noteq> uid \<longrightarrow> babiesByUID (babyStateManager ?s') u = babiesByUID ?m u"
    by (simp add: man' Update_other_uid)
  have c6: "broadcastersByUID ?s' uid
           = (if broadcastersByUID s uid = Some publisher then None else broadcastersByUID s uid)"
    by (simp add: handleConnection_readError_unfold closePublisher_simps)
  have c7: "\<forall>u. u \<noteq> uid \<longrightarrow> broadcastersByUID ?s' u = broadcastersByUID s u"
    by (simp add: handleConnection_readError_unfold closePublisher_simps)
  have c8: "\<forall>sub\<in>set (subscribersOf s publisher). pktC_closed ?s' sub"
    by (simp add: handleConnection_readError_unfold closePublisher_simps)
  have c9: "\<forall>sub. sub \<notin> set (subscribersOf s publisher) \<longrightarrow> pktC_closed ?s' sub = pktC_closed s sub"
    by (simp add: handleConnection_readError_unfold closePublisher_simps)
  have c10: "subscribersOf ?s' = subscribersOf s"
    by (simp add: handleConnection_readError_unfold closePublisher_simps)
  from c1 c2 c3 c4 c5 c6 c7 c8 c9 c10 show ?thesis by blast
qed

lemma liveHandler_simps:
  "nxt (mem liveHandler) = 5"
  "babiesByUID (babyStateManager liveHandler) ''abc'' = Some 4"
  "states (mem liveHandler) 4 = emptyState\<lparr>StreamState := Some 2, IsWebsocketAlive := Some 3\<rparr>"
  "cells (mem liveHandler) 2 = VStreamState StreamState_Alive"
  "cells (mem liveHandler) 3 = VBool True"
  "broadcastersByUID liveHandler ''abc'' = Some 5"
  "subscribersOf liveHandler 5 = [6, 7]"
  "pktC_closed liveHandler sub = False"
  by (simp_all add: liveHandler_def emptyHeap_def)

theorem publisher_read_error_witness:
  "babiesByUID (babyStateManager liveHandler) ''abc'' = Some 4
   \<and> 4 < nxt (mem liveHandler)
   \<and> StreamState (states (mem liveHandler) 4) = Some 2 \<and> 2 < nxt (mem liveHandler)
   \<and> LastVideoPacketTime (states (mem liveHandler) 4) = None
   \<and> GetStreamState (mem liveHandler) (GetBabyState (mem liveHandler) (babyStateManager liveHandler) ''abc'')
        = StreamState_Alive
   \<and> GetIsWebsocketAlive (mem liveHandler) (GetBabyState (mem liveHandler) (babyStateManager liveHandler) ''abc'')
   \<and> GetStreamState (mem (handleConnection_readError liveHandler ''abc'' 5))
           (GetBabyState (mem (handleConnection_readError liveHandler ''abc'' 5))
              (babyStateManager (handleConnection_readError liveHandler ''abc'' 5)) ''abc'') = StreamState_Unhealthy
   \<and> GetLastVideoPacketTime (mem (handleConnection_readError liveHandler ''abc'' 5))
           (GetBabyState (mem (handleConnection_readError liveHandler ''abc'' 5))
              (babyStateManager (handleConnection_readError liveHandler ''abc'' 5)) ''abc'') = Some (VInt64 0)
   \<and> GetIsWebsocketAlive (mem (handleConnection_readError liveHandler ''abc'' 5))
           (GetBabyState (mem (handleConnection_readError liveHandler ''abc'' 5))
              (babyStateManager (handleConnection_readError liveHandler ''abc'' 5)) ''abc'')
   \<and> broadcastersByUID liveHandler ''abc'' = Some 5
   \<and> broadcastersByUID (handleConnection_readError liveHandler ''abc'' 5) ''abc'' = None
   \<and> 7 \<in> set (subscribersOf liveHandler 5)
   \<and> \<not> pktC_closed liveHandler 7
   \<and> pktC_closed (handleConnection_readError liveHandler ''abc'' 5) 7
   \<and> 9 \<notin> set (subscribersOf liveHandler 5)
   \<and> \<not> pktC_closed (handleConnection_readError liveHandler ''abc'' 5) 9"
proof -
  let ?s' = "handleConnection_readError liveHandler ''abc'' 5"
  have wf: "\<forall>a. babiesByUID (babyStateManager liveHandler) ''abc'' = Some a \<longrightarrow>
      a < nxt (mem liveHandler)
      \<and> (\<forall>ca. StreamState (states (mem liveHandler) a) = Some ca \<longrightarrow> ca < nxt (mem liveHandler))
      \<and> (\<forall>ca. LastVideoPacketTime (states (mem liveHandler) a) = Some ca \<longrightarrow> ca < nxt (mem liveHandler))"
    by (simp add: liveHandler_simps emptyState_def)
  note T = publisher_read_error [OF wf, of 5]
  have gb: "GetBabyState (mem liveHandler) (babyStateManager liveHandler) ''abc''
        = emptyState\<lparr>StreamState := Some 2, IsWebsocketAlive := Some 3\<rparr>"
    by (simp add: GetBabyState_def liveHandler_simps)
  have before: "GetStreamState (mem liveHandler)
        (GetBabyState (mem liveHandler) (babyStateManager liveHandler) ''abc'') = StreamState_Alive"
    "GetIsWebsocketAlive (mem liveHandler)
        (GetBabyState (mem liveHandler) (babyStateManager liveHandler) ''abc'')"
    by (simp_all add: gb GetStreamState_def GetIsWebsocketAlive_def liveHandler_simps emptyState_def)
  from T have "Field_of (GetBabyState (mem ?s') (babyStateManager ?s') ''abc'') F_IsWebsocketAlive
        = Field_of (GetBabyState (mem liveHandler) (babyStateManager liveHandler) ''abc'') F_IsWebsocketAlive"
    by blast
  then have ptr: "IsWebsocketAlive (GetBabyState (mem ?s') (babyStateManager ?s') ''abc'') = Some 3"
    by (simp add: gb emptyState_def)
  from T have "cells (mem ?s') 3 = cells (mem liveHandler) 3"
    by (simp add: liveHandler_simps)
  with ptr have alive: "GetIsWebsocketAlive (mem ?s') (GetBabyState (mem ?s') (babyStateManager ?s') ''abc'')"
    by (simp add: GetIsWebsocketAlive_def liveHandler_simps)
  have nine: "9 \<notin> set (subscribersOf liveHandler 5)" by (simp add: liveHandler_simps)
  with T have open9: "\<not> pktC_closed ?s' 9" by (simp add: liveHandler_simps)
  from T before alive nine open9 show ?thesis
    by (simp add: liveHandler_simps emptyState_def)
qed

text \<open>
  Claim C5: with no broadcaster registered for a UID, \<open>getNewSubscriber\<close> returns a
  \<open>nil\<close> subscriber (and no error: it has no error result), and the subscriber branch
  of \<open>handleConnection\<close> closes the connection and returns. With a broadcaster
  registered, it returns a subscriber that is in that broadcaster's subscriber set,
  with an open queue, and the handler goes on to serve it.
\<close>

theorem subscribe_without_publisher:
  "(broadcastersByUID s uid = None \<longrightarrow>
       getNewSubscriber s uid = (s, None, None)
       \<and> handleConnection_subscriber s nc uid = (s\<lparr>closedConns := nc # closedConns s\<rparr>, None))
   \<and> (\<forall>b. broadcastersByUID s uid = Some b \<longrightarrow>
       (\<exists>s' sub. getNewSubscriber s uid = (s', Some sub, Some (b, sub))
           \<and> sub \<in> set (subscribersOf s' b) \<and> \<not> pktC_closed s' sub
           \<and> broadcastersByUID s' = broadcastersByUID s
           \<and> closedConns s' = closedConns s
           \<and> handleConnection_subscriber s nc uid = (s', Some sub)))"
  by (simp add: getNewSubscriber_def handleConnection_subscriber_def newSubscriber_def)

theorem subscribe_without_publisher_witness:
  "broadcastersByUID liveHandler ''xyz'' = None
   \<and> getNewSubscriber liveHandler ''xyz'' = (liveHandler, None, None)
   \<and> snd (handleConnection_subscriber liveHandler 9 ''xyz'') = None
   \<and> closedConns (fst (handleConnection_subscriber liveHandler 9 ''xyz'')) = [9]
   \<and> broadcastersByUID liveHandler ''abc'' = Some 5
   \<and> fst (snd (getNewSubscriber liveHandler ''abc'')) \<noteq> None"
proof -
  have n: "broadcastersByUID liveHandler ''xyz'' = None"
    and b: "broadcastersByUID liveHandler ''abc'' = Some 5"
    and c: "closedConns liveHandler = []"
    by (simp_all add: liveHandler_def)
  from subscribe_without_publisher [of liveHandler "''xyz''" 9] n c
  have "getNewSubscriber liveHandler ''xyz'' = (liveHandler, None, None)"
    "snd (handleConnection_subscriber liveHandler 9 ''xyz'') = None"
    "closedConns (fst (handleConnection_subscriber liveHandler 9 ''xyz'')) = [9]"
    by simp_all
  moreover from subscribe_without_publisher [of liveHandler "''abc''" 9] b
  have "fst (snd (getNewSubscriber liveHandler ''abc'')) \<noteq> None"
    by auto
  ultimately show ?thesis using n b by simp
qed

text \<open>
  The store as the specification describes it, on the run of \<open>sameVolumeHeap\<close>: the
  device \<open>abc\<close> has the record at address 4, and the update at address 5 repeats its
  volume. \<open>Merge\<close> returns a new record, so the store reports a change and notifies.
\<close>

lemma Update_same_DeviceInfo_notifies:
  "snd (Update sameVolumeHeap \<lparr>babiesByUID = [''abc'' \<mapsto> 4], notified = []\<rparr> ''abc'' 5)
     = (\<lparr>babiesByUID = [''abc'' \<mapsto> 6], notified = [(''abc'', 5)]\<rparr>, True)"
proof -
  have "snd (Merge sameVolumeHeap 4 5) = 6"
    using Merge_DeviceInfo_both(1) [of 4 sameVolumeHeap 5 2 3] by (simp add: sameVolumeHeap_simps)
  then show ?thesis by (simp add: Update_unfold Let_def)
qed

section \<open>Proofs: requests and responses\<close>

lemma SendRequest_sent:
  "SendRequest conn reqType req None =
     (conn\<lparr>lastRequestID := lastRequestID conn + 1,
           chans := (chans conn)(nextChan conn := \<lparr>buf = None, closed = False\<rparr>),
           nextChan := Suc (nextChan conn),
           resHandlers := (resHandlers conn)(lastRequestID conn + 1 \<mapsto>
              \<lparr>Request = req\<lparr>ReqId := Some (lastRequestID conn + 1), ReqType := Some reqType\<rparr>,
               resC = nextChan conn\<rparr>),
           sent := sent conn @ [req\<lparr>ReqId := Some (lastRequestID conn + 1), ReqType := Some reqType\<rparr>]\<rparr>,
      Awaiter (nextChan conn))"
  by (simp add: SendRequest_def Let_def)

lemma timedOut_eq:
  "timedOut conn reqType req =
     (fst (SendRequest conn reqType req None))
       \<lparr>chans := (chans (fst (SendRequest conn reqType req None)))
                   (nextChan conn := \<lparr>buf = None, closed = True\<rparr>)\<rparr>"
  by (simp add: timedOut_def SendRequest_sent await_def Let_def)

text \<open>
  Claim C3 says that on a timeout the awaiter returns a timeout error and the pending
  entry of the request is discarded. On a new connection, after one request was sent
  and timed out, the awaiter has returned the timeout error and the entry of request 1
  is still in \<open>resHandlers\<close>.
\<close>

theorem timeout_keeps_pending_entry:
  "snd (await (snd (SendRequest NewWebsocketConnection 7 exampleRequest None)) TimerC
          (fst (SendRequest NewWebsocketConnection 7 exampleRequest None)))
     = Returned None (Some RequestTimeout)
   \<and> resHandlers (timedOut NewWebsocketConnection 7 exampleRequest) 1 \<noteq> None"
  by (simp add: timedOut_def SendRequest_sent await_def NewWebsocketConnection_def Let_def)

text \<open>
  Claim C3 as amended: for every request that was sent, if the awaiter wakes up on the
  timer while its channel is still open (in any later state of the connection, and so
  right after the request was sent), it returns the timeout error, closes the response
  channel and leaves \<open>resHandlers\<close> as it is: the pending entry stays under the
  request's ID; a later response with that ID and request type deletes the entry and
  changes no channel; and on any connection a response whose ID has no entry, or whose
  request type differs from the entry's, leaves the connection as it is.
\<close>

theorem SendRequest_timeout:
  "snd (SendRequest conn reqType req None) = Awaiter (nextChan conn)
   \<and> (\<forall>c'. \<not> closed (chans c' (nextChan conn)) \<longrightarrow>
          snd (await (Awaiter (nextChan conn)) TimerC c') = Returned None (Some RequestTimeout)
          \<and> closed (chans (fst (await (Awaiter (nextChan conn)) TimerC c')) (nextChan conn))
          \<and> resHandlers (fst (await (Awaiter (nextChan conn)) TimerC c')) = resHandlers c')
   \<and> snd (await (snd (SendRequest conn reqType req None)) TimerC (fst (SendRequest conn reqType req None)))
     = Returned None (Some RequestTimeout)
   \<and> chans (timedOut conn reqType req) (nextChan conn) = \<lparr>buf = None, closed = True\<rparr>
   \<and> resHandlers (timedOut conn reqType req) = resHandlers (fst (SendRequest conn reqType req None))
   \<and> resHandlers (timedOut conn reqType req) (lastRequestID conn + 1) \<noteq> None
   \<and> (\<forall>r. RequestId r = Some (lastRequestID conn + 1) \<and> RequestType r = Some reqType \<longrightarrow>
         (\<exists>c'. handleResponse (timedOut conn reqType req) r = Some c'
               \<and> resHandlers c' (lastRequestID conn + 1) = None
               \<and> chans c' = chans (timedOut conn reqType req)))
   \<and> (\<forall>r i t. RequestId r = Some i \<and> RequestType r = Some t
          \<and> (resHandlers c i = None
              \<or> (\<exists>u t'. resHandlers c i = Some u \<and> ReqType (Request u) = Some t' \<and> t' \<noteq> t))
        \<longrightarrow> handleResponse c r = Some c)"
proof -
  have "\<forall>r. RequestId r = Some (lastRequestID conn + 1) \<and> RequestType r = Some reqType \<longrightarrow>
         (\<exists>c'. handleResponse (timedOut conn reqType req) r = Some c'
               \<and> resHandlers c' (lastRequestID conn + 1) = None
               \<and> chans c' = chans (timedOut conn reqType req))"
    by (simp add: timedOut_eq SendRequest_sent handleResponse_def HandleResponse_def Let_def)
  moreover have "\<forall>r i t. RequestId r = Some i \<and> RequestType r = Some t
          \<and> (resHandlers c i = None
              \<or> (\<exists>u t'. resHandlers c i = Some u \<and> ReqType (Request u) = Some t' \<and> t' \<noteq> t))
        \<longrightarrow> handleResponse c r = Some c"
    by (auto simp: handleResponse_def)
  moreover have "\<forall>c'. \<not> closed (chans c' (nextChan conn)) \<longrightarrow>
          snd (await (Awaiter (nextChan conn)) TimerC c') = Returned None (Some RequestTimeout)
          \<and> closed (chans (fst (await (Awaiter (nextChan conn)) TimerC c')) (nextChan conn))
          \<and> resHandlers (fst (await (Awaiter (nextChan conn)) TimerC c')) = resHandlers c'"
    by (simp add: await_def Let_def)
  ultimately show ?thesis
    by (simp add: timedOut_eq SendRequest_sent await_def Let_def)
qed

lemma pendingConnection_simps:
  "resHandlers pendingConnection 1 = Some \<lparr>Request = \<lparr>ReqId = Some 1, ReqType = Some 7\<rparr>, resC = 0\<rparr>"
  "resHandlers pendingConnection 2 = None"
  "chans pendingConnection 0 = \<lparr>buf = None, closed = False\<rparr>"
  by (simp_all add: pendingConnection_def SendRequest_sent NewWebsocketConnection_def exampleRequest_def)

theorem SendRequest_timeout_witness:
  "\<not> closed (chans pendingConnection (nextChan NewWebsocketConnection))
   \<and> snd (await (Awaiter (nextChan NewWebsocketConnection)) TimerC pendingConnection)
       = Returned None (Some RequestTimeout)
   \<and> RequestId (exampleResponse 1 7) = Some (lastRequestID NewWebsocketConnection + 1)
   \<and> RequestType (exampleResponse 1 7) = Some 7
   \<and> (\<exists>c'. handleResponse (timedOut NewWebsocketConnection 7 exampleRequest) (exampleResponse 1 7) = Some c'
          \<and> resHandlers c' 1 = None
          \<and> chans c' = chans (timedOut NewWebsocketConnection 7 exampleRequest))
   \<and> RequestId (exampleResponse 2 7) = Some 2 \<and> RequestType (exampleResponse 2 7) = Some 7
   \<and> resHandlers pendingConnection 2 = None
   \<and> handleResponse pendingConnection (exampleResponse 2 7) = Some pendingConnection
   \<and> RequestId (exampleResponse 1 8) = Some 1 \<and> RequestType (exampleResponse 1 8) = Some 8
   \<and> (\<exists>u t'. resHandlers pendingConnection 1 = Some u \<and> ReqType (Request u) = Some t' \<and> t' \<noteq> 8)
   \<and> handleResponse pendingConnection (exampleResponse 1 8) = Some pendingConnection"
proof -
  note T = SendRequest_timeout [of NewWebsocketConnection 7 exampleRequest pendingConnection]
  have id1: "lastRequestID NewWebsocketConnection + 1 = 1"
    by (simp add: NewWebsocketConnection_def)
  have r1: "RequestId (exampleResponse 1 7) = Some (lastRequestID NewWebsocketConnection + 1)"
      "RequestType (exampleResponse 1 7) = Some 7"
    by (simp_all add: exampleResponse_def id1)
  from T r1 have late: "\<exists>c'. handleResponse (timedOut NewWebsocketConnection 7 exampleRequest) (exampleResponse 1 7) = Some c'
          \<and> resHandlers c' 1 = None
          \<and> chans c' = chans (timedOut NewWebsocketConnection 7 exampleRequest)"
    by (simp add: id1)
  have r2: "RequestId (exampleResponse 2 7) = Some 2" "RequestType (exampleResponse 2 7) = Some 7"
      "resHandlers pendingConnection 2 = None"
    by (simp_all add: exampleResponse_def pendingConnection_simps)
  from T r2 have unknown: "handleResponse pendingConnection (exampleResponse 2 7) = Some pendingConnection"
    by blast
  have r3: "RequestId (exampleResponse 1 8) = Some 1" "RequestType (exampleResponse 1 8) = Some 8"
      "\<exists>u t'. resHandlers pendingConnection 1 = Some u \<and> ReqType (Request u) = Some t' \<and> t' \<noteq> 8"
    by (simp_all add: exampleResponse_def pendingConnection_simps)
  from T r3 have other: "handleResponse pendingConnection (exampleResponse 1 8) = Some pendingConnection"
    by blast
  have open0: "\<not> closed (chans pendingConnection (nextChan NewWebsocketConnection))"
    by (simp add: pendingConnection_simps NewWebsocketConnection_def)
  with T have tmo: "snd (await (Awaiter (nextChan NewWebsocketConnection)) TimerC pendingConnection)
       = Returned None (Some RequestTimeout)"
    by blast
  from open0 tmo r1 late r2 unknown r3 other show ?thesis by blast
qed

text \<open>
  The closure alone, called on a channel whose slot is full, takes the response out of
  the slot; \<open>handleResponse\<close> never calls it in that state twice for one request,
  since it deletes the entry before the call.
\<close>

lemma HandleResponse_full:
  "buf (chans conn c) = Some r \<Longrightarrow>
   chans (HandleResponse c r2 conn) c = (chans conn c)\<lparr>buf := None\<rparr>"
  by (simp add: HandleResponse_def Let_def)

text \<open>
  Claim C4: a pending request is resolved at most once. For a pending entry whose
  channel is open and empty, a response with the entry's ID and request type deletes
  the entry and puts the response in the channel, where the awaiter finds it; any
  further response with that ID, before or after the awaiter has returned, leaves the
  connection unchanged; and if the awaiter has already returned on the timer, the
  response changes no channel, so the channel stays closed and empty.
\<close>

theorem response_resolves_once:
  assumes "resHandlers conn i = Some u" and "ReqType (Request u) = Some t"
    and "chans conn (resC u) = \<lparr>buf = None, closed = False\<rparr>"
    and "RequestId r = Some i" and "RequestType r = Some t"
  shows "\<exists>c1. handleResponse conn r = Some c1
          \<and> resHandlers c1 = (resHandlers conn)(i := None)
          \<and> chans c1 = (chans conn)(resC u := \<lparr>buf = Some r, closed = False\<rparr>)
          \<and> snd (await (Awaiter (resC u)) ResC c1) = statusOf r
          \<and> (\<forall>r2. RequestId r2 = Some i \<and> RequestType r2 \<noteq> None \<longrightarrow> handleResponse c1 r2 = Some c1)
          \<and> (\<forall>r2. RequestId r2 = Some i \<and> RequestType r2 \<noteq> None \<longrightarrow>
                handleResponse (fst (await (Awaiter (resC u)) ResC c1)) r2
                  = Some (fst (await (Awaiter (resC u)) ResC c1)))
          \<and> (\<exists>c3. handleResponse (fst (await (Awaiter (resC u)) TimerC conn)) r = Some c3
                \<and> chans c3 = chans (fst (await (Awaiter (resC u)) TimerC conn))
                \<and> chans c3 (resC u) = \<lparr>buf = None, closed = True\<rparr>)"
  using assms
  by (auto simp: handleResponse_def HandleResponse_def await_def Let_def)

theorem response_resolves_once_witness:
  "resHandlers pendingConnection 1 = Some \<lparr>Request = \<lparr>ReqId = Some 1, ReqType = Some 7\<rparr>, resC = 0\<rparr>
   \<and> chans pendingConnection 0 = \<lparr>buf = None, closed = False\<rparr>
   \<and> RequestId (exampleResponse 1 7) = Some 1 \<and> RequestType (exampleResponse 1 7) = Some 7
   \<and> (\<exists>c1. handleResponse pendingConnection (exampleResponse 1 7) = Some c1
         \<and> resHandlers c1 1 = None
         \<and> snd (await (Awaiter 0) ResC c1) = Returned (Some (exampleResponse 1 7)) None
         \<and> handleResponse c1 (exampleResponse 1 7) = Some c1)"
proof -
  let ?u = "\<lparr>Request = \<lparr>ReqId = Some 1, ReqType = Some 7\<rparr>, resC = 0\<rparr>"
  have a: "resHandlers pendingConnection 1 = Some ?u" "ReqType (Request ?u) = Some 7"
      "chans pendingConnection (resC ?u) = \<lparr>buf = None, closed = False\<rparr>"
      "RequestId (exampleResponse 1 7) = Some 1" "RequestType (exampleResponse 1 7) = Some 7"
    by (simp_all add: pendingConnection_simps exampleResponse_def)
  from response_resolves_once [OF a]
  obtain c1 where c1: "handleResponse pendingConnection (exampleResponse 1 7) = Some c1"
      "resHandlers c1 = (resHandlers pendingConnection)(1 := None)"
      "snd (await (Awaiter (resC ?u)) ResC c1) = statusOf (exampleResponse 1 7)"
      "\<forall>r2. RequestId r2 = Some 1 \<and> RequestType r2 \<noteq> None \<longrightarrow> handleResponse c1 r2 = Some c1"
    by blast
  have "statusOf (exampleResponse 1 7) = Returned (Some (exampleResponse 1 7)) None"
    by (simp add: statusOf_def exampleResponse_def)
  with c1 a show ?thesis by simp
qed

section \<open>Proofs: the HLS transcoder\<close>

lemma startedTranscoder_simps:
  "isRunning startedTranscoder" "startTime startedTranscoder = 0" "retryCount startedTranscoder = 0"
  "maxRetries startedTranscoder = 5" "launches startedTranscoder = 1"
  "pendingRetries startedTranscoder = 0" "status startedTranscoder = StatusConnecting"
  by (simp_all add: startedTranscoder_def Start_def NewHLSTranscoder_def Let_def)

lemma setError_simps:
  "status (setError h t m c) = StatusError"
  "lastError (setError h t m c) = Some \<lparr>Type = t, Message = m, Code = c\<rparr>"
  "retryCount (setError h t m c) = retryCount h"
  "maxRetries (setError h t m c) = maxRetries h"
  "pendingRetries (setError h t m c) = pendingRetries h"
  "launches (setError h t m c) = launches h"
  "isRunning (setError h t m c) = isRunning h"
  by (simp_all add: setError_def)

lemma classifyAndSetError_simps:
  "status (classifyAndSetError h now err) = StatusError"
  "retryCount (classifyAndSetError h now err) = retryCount h"
  "maxRetries (classifyAndSetError h now err) = maxRetries h"
  "pendingRetries (classifyAndSetError h now err) = pendingRetries h"
  "launches (classifyAndSetError h now err) = launches h"
  by (simp_all add: classifyAndSetError_def setError_simps)

lemma classify_exit_status:
  "classifyAndSetError h now ''exit status 1'' =
     (if now - startTime h < 10 * second
      then setError h ErrorTypeRTMPConnection ''RTMP stream not available'' ''exit status 1''
      else setError h ErrorTypeNetworkError ''Stream disconnected unexpectedly'' ''exit status 1'')"
  by (simp add: classifyAndSetError_def)

text \<open>Whatever ended \<open>monitor\<close>, the transcoder is not running afterwards.\<close>

lemma monitor_not_running: "\<not> isRunning (monitor h now ev)"
  by (simp add: monitor_def monitor_deferred_def Let_def)

lemma retryTimer_not_running:
  "\<not> isRunning h \<Longrightarrow> retryTimer h start = h\<lparr>pendingRetries := pendingRetries h - 1\<rparr>"
  by (simp add: retryTimer_def Let_def)

lemma retry_after_monitor_never_restarts:
  "retryTimer (monitor h now ev) start
     = (monitor h now ev)\<lparr>pendingRetries := pendingRetries (monitor h now ev) - 1\<rparr>"
  by (rule retryTimer_not_running) (rule monitor_not_running)

text \<open>The decision of \<open>monitor\<close> when the process ended with an error.\<close>

lemma monitor_Done_error:
  "monitor h now (Done (Some err)) =
     (if shouldRetry (classifyAndSetError h now err)
      then (scheduleRetry (classifyAndSetError h now err))\<lparr>isRunning := False\<rparr>
      else (classifyAndSetError h now err)\<lparr>isRunning := False\<rparr>)"
  by (simp add: monitor_def monitor_deferred_def scheduleRetry_def Let_def classifyAndSetError_simps)

lemma shouldRetry_iff:
  "shouldRetry h \<longleftrightarrow>
     retryCount h < maxRetries h
     \<and> (\<exists>e. lastError h = Some e
            \<and> Type e \<in> {ErrorTypeRTMPConnection, ErrorTypeRTMPTimeout, ErrorTypeNetworkError})"
  by (auto simp: shouldRetry_def split: option.splits)

lemma monitor_schedules_retry:
  "pendingRetries (monitor h now (Done (Some err)))
     = (if shouldRetry (classifyAndSetError h now err) then Suc (pendingRetries h) else pendingRetries h)"
  "status (monitor h now (Done (Some err))) = StatusError"
  by (simp_all add: monitor_Done_error scheduleRetry_def classifyAndSetError_simps)

lemma classify_connection_refused:
  "Contains err ''Connection refused'' \<Longrightarrow>
   classifyAndSetError h now err = setError h ErrorTypeRTMPConnection ''Cannot connect to RTMP server'' err"
  by (simp add: classifyAndSetError_def)

text \<open>
  Claim C7 says that a transcoder whose process ends with a connection, timeout or
  network error is retried after the fixed delay, for each failure while the retry
  counter is below 5. The run below starts a transcoder, lets the process end with
  \<open>exit status 1\<close> three seconds later, and lets the retry timer fire. \<open>monitor\<close>
  classifies the error as \<open>rtmp_connection\<close>, decides to retry and schedules it
  (the counter becomes 1); its deferred function then clears \<open>isRunning\<close>, as
  \<open>monitor\<close> returns right after \<open>scheduleRetry\<close>, ten seconds before the timer
  fires; and the scheduled goroutine, finding the transcoder not running, returns
  without starting a process: \<open>launches\<close> is still 1 and the status stays
  \<open>StatusError\<close>.
\<close>

theorem retry_never_restarts:
  "shouldRetry (classifyAndSetError startedTranscoder (3 * second) ''exit status 1'')
   \<and> retryCount (monitor startedTranscoder (3 * second) (Done (Some ''exit status 1''))) = 1
   \<and> pendingRetries (monitor startedTranscoder (3 * second) (Done (Some ''exit status 1''))) = 1
   \<and> launches (retryTimer (monitor startedTranscoder (3 * second) (Done (Some ''exit status 1''))) None)
       = launches startedTranscoder
   \<and> \<not> isRunning (retryTimer (monitor startedTranscoder (3 * second) (Done (Some ''exit status 1''))) None)
   \<and> fst (GetStatus (retryTimer (monitor startedTranscoder (3 * second) (Done (Some ''exit status 1''))) None))
       = StatusError"
proof -
  let ?c = "classifyAndSetError startedTranscoder (3 * second) ''exit status 1''"
  let ?m = "monitor startedTranscoder (3 * second) (Done (Some ''exit status 1''))"
  have "3 * second - startTime startedTranscoder < 10 * second"
    by (simp add: startedTranscoder_simps second_def)
  then have cl: "?c = setError startedTranscoder ErrorTypeRTMPConnection ''RTMP stream not available'' ''exit status 1''"
    by (simp add: classify_exit_status)
  have sr: "shouldRetry ?c"
    by (simp add: shouldRetry_iff cl setError_simps startedTranscoder_simps)
  then have m: "?m = (scheduleRetry ?c)\<lparr>isRunning := False\<rparr>"
    by (simp add: monitor_Done_error)
  have "retryCount ?m = 1" "pendingRetries ?m = 1" "launches ?m = launches startedTranscoder"
      "status ?m = StatusError"
    by (simp_all add: m scheduleRetry_def classifyAndSetError_simps startedTranscoder_simps)
  with sr show ?thesis
    by (simp add: retry_after_monitor_never_restarts GetStatus_def monitor_not_running)
qed

section \<open>Proofs: the streaming retry monitor\<close>

lemma failedApp_state:
  "GetIsWebsocketAlive (appMem failedApp) (GetBabyState (appMem failedApp) (BabyStateManager failedApp) ''abc'')"
  "GetStreamRequestState (appMem failedApp) (GetBabyState (appMem failedApp) (BabyStateManager failedApp) ''abc'')
     = StreamRequestState_RequestFailed"
  "GetStreamState (appMem failedApp) (GetBabyState (appMem failedApp) (BabyStateManager failedApp) ''abc'')
     \<noteq> StreamState_Alive"
  by (simp_all add: failedApp_def emptyHeap_def GetBabyState_def GetIsWebsocketAlive_def
      GetStreamRequestState_def GetStreamState_def emptyState_def)

text \<open>
  Claim C8 says that a tick of the retry monitor re-attempts streaming exactly when
  the state says websocket alive, stream request failed and liveness not alive. In
  \<open>failedApp\<close> all three hold for the device \<open>abc\<close>, and the tick starts no retry:
  no connection is registered for the device.
\<close>

theorem retry_monitor_needs_connection:
  "GetIsWebsocketAlive (appMem failedApp) (GetBabyState (appMem failedApp) (BabyStateManager failedApp) ''abc'')
   \<and> GetStreamRequestState (appMem failedApp) (GetBabyState (appMem failedApp) (BabyStateManager failedApp) ''abc'')
       = StreamRequestState_RequestFailed
   \<and> GetStreamState (appMem failedApp) (GetBabyState (appMem failedApp) (BabyStateManager failedApp) ''abc'')
       \<noteq> StreamState_Alive
   \<and> startStreamingRetryMonitor ''abc'' [TickerC failedApp] = []"
  using failedApp_state by (simp add: getConnection_def) (simp add: failedApp_def)

text \<open>
  Claim C8 as amended: a tick of the retry monitor starts \<open>retryStreaming\<close> for the
  device, on its registered connection, exactly when RTMP auto-start is enabled, a
  connection is registered for the device, and the state says websocket alive, stream
  request failed and liveness not alive; otherwise the tick starts nothing. The monitor
  ends when its context is done.
\<close>

theorem retry_monitor_tick:
  "startStreamingRetryMonitor uid (CtxDone # evs) = []
   \<and> startStreamingRetryMonitor uid (TickerC app # evs) =
     (if (\<exists>rtmp. Opts_RTMP app = Some rtmp \<and> AutoStart rtmp)
         \<and> connections app uid \<noteq> None
         \<and> GetIsWebsocketAlive (appMem app) (GetBabyState (appMem app) (BabyStateManager app) uid)
         \<and> GetStreamRequestState (appMem app) (GetBabyState (appMem app) (BabyStateManager app) uid)
             = StreamRequestState_RequestFailed
         \<and> GetStreamState (appMem app) (GetBabyState (appMem app) (BabyStateManager app) uid)
             \<noteq> StreamState_Alive
      then the (connections app uid) # startStreamingRetryMonitor uid evs
      else startStreamingRetryMonitor uid evs)"
  by (auto simp: shouldRetryStreaming_def getConnection_def Let_def split: option.splits)

theorem retry_monitor_tick_witness:
  "(\<exists>rtmp. Opts_RTMP connectedApp = Some rtmp \<and> AutoStart rtmp)
   \<and> connections connectedApp ''abc'' \<noteq> None
   \<and> startStreamingRetryMonitor ''abc'' [TickerC connectedApp, TickerC failedApp, CtxDone, TickerC connectedApp] = [9]"
proof -
  have a: "\<exists>rtmp. Opts_RTMP connectedApp = Some rtmp \<and> AutoStart rtmp"
    "connections connectedApp ''abc'' = Some 9" "connections failedApp ''abc'' = None"
    "appMem connectedApp = appMem failedApp" "BabyStateManager connectedApp = BabyStateManager failedApp"
    by (simp_all add: connectedApp_def failedApp_def)
  have "startStreamingRetryMonitor ''abc'' (TickerC connectedApp # [TickerC failedApp, CtxDone, TickerC connectedApp])
        = 9 # startStreamingRetryMonitor ''abc'' [TickerC failedApp, CtxDone, TickerC connectedApp]"
    using retry_monitor_tick [where uid="''abc''" and app=connectedApp
        and evs="[TickerC failedApp, CtxDone, TickerC connectedApp]"]
      a failedApp_state by simp
  moreover have "startStreamingRetryMonitor ''abc'' (TickerC failedApp # [CtxDone, TickerC connectedApp])
        = startStreamingRetryMonitor ''abc'' [CtxDone, TickerC connectedApp]"
    using retry_monitor_tick [where uid="''abc''" and app=failedApp
        and evs="[CtxDone, TickerC connectedApp]"] a by simp
  ultimately show ?thesis using a by simp
qed

section \<open>Proofs: \<open>EnsureValidBabyUID\<close>\<close>

lemma validUID_MatchString_iff:
  "validUID_MatchString uid \<longleftrightarrow> uid \<noteq> [] \<and> (\<forall>c\<in>set uid. validUID_class c)"
  by (induction uid rule: validUID_MatchString.induct) auto

lemma allowed_split:
  "''abcdefghijklmnopqrstuvwxyz0123456789_-'' = ''abcdefghijklmnopqrstuvwxyz'' @ ''0123456789'' @ ''_-''"
  by simp

lemma allowed_are_in_class: "list_all validUID_class ''abcdefghijklmnopqrstuvwxyz0123456789_-''"
  by code_simp

lemma allowed_are_safe:
  "list_all (\<lambda>c. c \<noteq> CHR ''/'' \<and> c \<noteq> CHR 0x5C \<and> c \<noteq> CHR ''.''
                 \<and> c \<notin> set ''ABCDEFGHIJKLMNOPQRSTUVWXYZ'')
     ''abcdefghijklmnopqrstuvwxyz0123456789_-''"
  by code_simp

lemma validUID_class_iff:
  "validUID_class c \<longleftrightarrow> c \<in> set ''abcdefghijklmnopqrstuvwxyz0123456789_-''"
proof
  assume "validUID_class c"
  then consider
      (lower) "97 \<le> (of_char c :: nat)" "(of_char c :: nat) \<le> 122"
    | (digit) "48 \<le> (of_char c :: nat)" "(of_char c :: nat) \<le> 57"
    | (other) "c = CHR ''_'' \<or> c = CHR ''-''"
    by (auto simp: validUID_class_def)
  then have "c \<in> set (''abcdefghijklmnopqrstuvwxyz'' @ ''0123456789'' @ ''_-'')"
  proof cases
    case lower
    then have "(of_char c :: nat) \<in> {97..<123}" by simp
    then have "char_of (of_char c :: nat) \<in> char_of ` {97..<123::nat}" by (rule imageI)
    then have "c \<in> char_of ` {97..<123::nat}" by simp
    also have "char_of ` {97..<123::nat} = set (map char_of [97..<123::nat])"
      by (simp only: set_map set_upt)
    also have "map char_of [97..<123::nat] = ''abcdefghijklmnopqrstuvwxyz''" by code_simp
    finally show ?thesis by (simp only: set_append Un_iff) simp
  next
    case digit
    then have "(of_char c :: nat) \<in> {48..<58}" by simp
    then have "char_of (of_char c :: nat) \<in> char_of ` {48..<58::nat}" by (rule imageI)
    then have "c \<in> char_of ` {48..<58::nat}" by simp
    also have "char_of ` {48..<58::nat} = set (map char_of [48..<58::nat])"
      by (simp only: set_map set_upt)
    also have "map char_of [48..<58::nat] = ''0123456789''" by code_simp
    finally show ?thesis by (simp only: set_append Un_iff) simp
  next
    case other
    then have "c \<in> set ''_-''" by auto
    then show ?thesis by (simp only: set_append Un_iff) simp
  qed
  then show "c \<in> set ''abcdefghijklmnopqrstuvwxyz0123456789_-''"
    by (simp only: allowed_split)
next
  assume "c \<in> set ''abcdefghijklmnopqrstuvwxyz0123456789_-''"
  with allowed_are_in_class show "validUID_class c"
    by (simp only: list_all_iff)
qed


text \<open>
  Claim C10: \<open>EnsureValidBabyUID\<close> returns an error exactly when the UID is empty or
  has a character other than a lowercase letter, a digit, an underscore or a hyphen.
  So a UID it accepts is not empty, is neither \<open>.\<close> nor \<open>..\<close>, and has no slash, no
  backslash, no dot and no uppercase letter: as a path component it names an entry of
  the directory it is joined to.
\<close>

theorem EnsureValidBabyUID_iff:
  "(EnsureValidBabyUID uid \<noteq> None
      \<longleftrightarrow> uid = [] \<or> (\<exists>c\<in>set uid. c \<notin> set ''abcdefghijklmnopqrstuvwxyz0123456789_-''))
   \<and> (EnsureValidBabyUID uid = None \<longrightarrow>
         uid \<noteq> [] \<and> uid \<noteq> ''.'' \<and> uid \<noteq> ''..''
         \<and> (\<forall>c\<in>set uid. c \<noteq> CHR ''/'' \<and> c \<noteq> CHR 0x5C \<and> c \<noteq> CHR ''.''
                \<and> c \<notin> set ''ABCDEFGHIJKLMNOPQRSTUVWXYZ''))"
proof -
  have iff: "EnsureValidBabyUID uid \<noteq> None
      \<longleftrightarrow> uid = [] \<or> (\<exists>c\<in>set uid. c \<notin> set ''abcdefghijklmnopqrstuvwxyz0123456789_-'')"
  proof -
    have "EnsureValidBabyUID uid \<noteq> None \<longleftrightarrow> \<not> validUID_MatchString uid"
      by (simp add: EnsureValidBabyUID_def)
    then show ?thesis
      unfolding validUID_MatchString_iff validUID_class_iff by blast
  qed
  have safe: "\<forall>c\<in>set ''abcdefghijklmnopqrstuvwxyz0123456789_-''.
       c \<noteq> CHR ''/'' \<and> c \<noteq> CHR 0x5C \<and> c \<noteq> CHR ''.'' \<and> c \<notin> set ''ABCDEFGHIJKLMNOPQRSTUVWXYZ''"
    using allowed_are_safe by (simp only: list_all_iff)
  have "uid \<noteq> [] \<and> uid \<noteq> ''.'' \<and> uid \<noteq> ''..''
         \<and> (\<forall>c\<in>set uid. c \<noteq> CHR ''/'' \<and> c \<noteq> CHR 0x5C \<and> c \<noteq> CHR ''.''
                \<and> c \<notin> set ''ABCDEFGHIJKLMNOPQRSTUVWXYZ'')" if "EnsureValidBabyUID uid = None"
  proof -
    from that iff have ne: "uid \<noteq> []"
      and all: "\<forall>c\<in>set uid. c \<in> set ''abcdefghijklmnopqrstuvwxyz0123456789_-''"
      by blast+
    from all safe have s: "\<forall>c\<in>set uid. c \<noteq> CHR ''/'' \<and> c \<noteq> CHR 0x5C \<and> c \<noteq> CHR ''.''
                \<and> c \<notin> set ''ABCDEFGHIJKLMNOPQRSTUVWXYZ''"
      by blast
    then have nodot: "CHR ''.'' \<notin> set uid" by blast
    then have "uid \<noteq> ''.''" "uid \<noteq> ''..''" by auto
    with s ne show ?thesis by blast
  qed
  with iff show ?thesis by blast
qed

theorem EnsureValidBabyUID_iff_witness:
  "EnsureValidBabyUID ''baby_01-x'' = None
   \<and> CHR ''_'' \<in> set ''baby_01-x'' \<and> CHR ''_'' \<noteq> CHR ''/''
   \<and> CHR ''/'' \<in> set ''../etc'' \<and> CHR ''/'' \<notin> set ''abcdefghijklmnopqrstuvwxyz0123456789_-''
   \<and> EnsureValidBabyUID ''../etc'' \<noteq> None
   \<and> EnsureValidBabyUID [] \<noteq> None"
proof -
  have "\<not> (\<exists>c\<in>set ''baby_01-x''. c \<notin> set ''abcdefghijklmnopqrstuvwxyz0123456789_-'')"
    by simp
  with EnsureValidBabyUID_iff [of "''baby_01-x''"] have a: "EnsureValidBabyUID ''baby_01-x'' = None"
    by blast
  have sl: "CHR ''/'' \<in> set ''../etc''" "CHR ''/'' \<notin> set ''abcdefghijklmnopqrstuvwxyz0123456789_-''"
    by simp_all
  with EnsureValidBabyUID_iff [of "''../etc''"] have b: "EnsureValidBabyUID ''../etc'' \<noteq> None"
    by blast
  from EnsureValidBabyUID_iff [of "[]"] have c: "EnsureValidBabyUID [] \<noteq> None"
    by blast
  from a b c sl show ?thesis by simp
qed

end
